theory Spec2Isabelle
  imports Main "HOL-Library.Word" "HOL-Library.Sublist"
begin

section \<open>JavaScript strings\<close>

text \<open>
  A JavaScript string is a sequence of UTF-16 code units. The literals of
  \<^verbatim>\<open>note-push.js\<close> are all ASCII; \<open>js\<close> embeds an Isabelle string literal
  as the code units of the same characters.
\<close>

type_synonym jschar = "16 word"
type_synonym jsstring = "jschar list"

definition js :: "string \<Rightarrow> jsstring" where
  "js s = map (\<lambda>c. of_char c) s"

definition DOLLAR :: jschar where "DOLLAR = 0x24"
definition AMP :: jschar where "AMP = 0x26"
definition QUOTE :: jschar where "QUOTE = 0x27"
definition BACKTICK :: jschar where "BACKTICK = 0x60"
definition LF :: jschar where "LF = 0x0A"
definition CR :: jschar where "CR = 0x0D"
definition LBRACE :: jschar where "LBRACE = 0x7B"

subsection \<open>\<^verbatim>\<open>String.prototype.replaceAll\<close> with a string pattern\<close>

text \<open>
  The replacement value of \<^verbatim>\<open>replaceAll\<close> is a template: \<^verbatim>\<open>$$\<close> stands for a
  dollar sign, \<^verbatim>\<open>$&\<close> for the matched text, \<^verbatim>\<open>$`\<close> for the text that precedes the
  match and \<^verbatim>\<open>$'\<close> for the text that comes next. A string pattern has no capture
  groups, so \<^verbatim>\<open>$1\<close> and \<^verbatim>\<open>$<name>\<close> stay as they are written.
\<close>

fun getSubstitution :: "jsstring \<Rightarrow> jsstring \<Rightarrow> jsstring \<Rightarrow> jsstring \<Rightarrow> jsstring" where
  "getSubstitution matched passed follow [] = []"
| "getSubstitution matched passed follow [c] = [c]"
| "getSubstitution matched passed follow (c # d # r) =
     (if c = DOLLAR \<and> d = DOLLAR then DOLLAR # getSubstitution matched passed follow r
      else if c = DOLLAR \<and> d = AMP then matched @ getSubstitution matched passed follow r
      else if c = DOLLAR \<and> d = BACKTICK then passed @ getSubstitution matched passed follow r
      else if c = DOLLAR \<and> d = QUOTE then follow @ getSubstitution matched passed follow r
      else c # getSubstitution matched passed follow (d # r))"

text \<open>
  The scan for a non-empty pattern: at a match, emit the substitution and
  go on behind the match; otherwise keep one code unit. \<open>passed\<close> is the part
  of the subject already scanned.
\<close>

function replaceAll_scan :: "jsstring \<Rightarrow> jsstring \<Rightarrow> jsstring \<Rightarrow> jsstring \<Rightarrow> jsstring" where
  "replaceAll_scan p v passed rest =
     (if p \<noteq> [] \<and> prefix p rest
      then getSubstitution p passed (drop (length p) rest) v
           @ replaceAll_scan p v (passed @ p) (drop (length p) rest)
      else (case rest of
              [] \<Rightarrow> []
            | c # cs \<Rightarrow> c # replaceAll_scan p v (passed @ [c]) cs))"
  by pat_completeness auto
termination
  by (relation "measure (\<lambda>(p, v, passed, rest). length rest)") (auto simp: prefix_def)

declare replaceAll_scan.simps [simp del]

text \<open>The empty pattern matches in front of every code unit and at the end.\<close>

fun replaceAll_empty :: "jsstring \<Rightarrow> jsstring \<Rightarrow> jsstring \<Rightarrow> jsstring" where
  "replaceAll_empty v passed [] = getSubstitution [] passed [] v"
| "replaceAll_empty v passed (c # cs) =
     getSubstitution [] passed (c # cs) v @ c # replaceAll_empty v (passed @ [c]) cs"

definition replaceAll :: "jsstring \<Rightarrow> jsstring \<Rightarrow> jsstring \<Rightarrow> jsstring" where
  "replaceAll s p v = (if p = [] then replaceAll_empty v [] s else replaceAll_scan p v [] s)"

subsection \<open>Other string operations of the handler\<close>

text \<open>\<^verbatim>\<open>s.includes(p)\<close>: \<open>p\<close> occurs in \<open>s\<close> as a contiguous run.\<close>

fun js_includes :: "jsstring \<Rightarrow> jsstring \<Rightarrow> bool" where
  "js_includes [] p = (p = [])"
| "js_includes (c # cs) p = (prefix p (c # cs) \<or> js_includes cs p)"

definition endsWith :: "jsstring \<Rightarrow> jsstring \<Rightarrow> bool" where
  "endsWith s p = suffix p s"

text \<open>
  \<^verbatim>\<open>s.trim()\<close> removes the white space and line terminator code points of
  ECMAScript from both ends.
\<close>

definition is_js_space :: "jschar \<Rightarrow> bool" where
  "is_js_space c \<longleftrightarrow>
     c = 0x09 \<or> c = 0x0A \<or> c = 0x0B \<or> c = 0x0C \<or> c = 0x0D \<or> c = 0x20 \<or> c = 0xA0
     \<or> c = 0x1680 \<or> (0x2000 \<le> c \<and> c \<le> 0x200A) \<or> c = 0x2028 \<or> c = 0x2029
     \<or> c = 0x202F \<or> c = 0x205F \<or> c = 0x3000 \<or> c = 0xFEFF"

definition trim :: "jsstring \<Rightarrow> jsstring" where
  "trim s = rev (dropWhile is_js_space (rev (dropWhile is_js_space s)))"

text \<open>\<^verbatim>\<open>xs.join(sep)\<close> on an array of strings.\<close>

fun join :: "jsstring list \<Rightarrow> jsstring \<Rightarrow> jsstring" where
  "join [] sep = []"
| "join [x] sep = x"
| "join (x # y # r) sep = x @ sep @ join (y # r) sep"

text \<open>A non-negative integer in a template literal: its decimal digits.\<close>

fun digits :: "nat \<Rightarrow> jsstring" where
  "digits n = (if n < 10 then [of_nat (48 + n)] else digits (n div 10) @ [of_nat (48 + n mod 10)])"

declare digits.simps [simp del]

subsection \<open>\<^verbatim>\<open>Buffer.from(string)\<close>: the UTF-8 bytes of a string\<close>

type_synonym byte = "8 word"

definition is_high_surrogate :: "jschar \<Rightarrow> bool" where
  "is_high_surrogate c \<longleftrightarrow> 0xD800 \<le> c \<and> c \<le> 0xDBFF"

definition is_low_surrogate :: "jschar \<Rightarrow> bool" where
  "is_low_surrogate c \<longleftrightarrow> 0xDC00 \<le> c \<and> c \<le> 0xDFFF"

definition utf8_bytes :: "nat \<Rightarrow> byte list" where
  "utf8_bytes n =
     (if n < 0x80 then [of_nat n]
      else if n < 0x800 then [of_nat (0xC0 + n div 64), of_nat (0x80 + n mod 64)]
      else if n < 0x10000 then
        [of_nat (0xE0 + n div 4096), of_nat (0x80 + n div 64 mod 64), of_nat (0x80 + n mod 64)]
      else
        [of_nat (0xF0 + n div 262144), of_nat (0x80 + n div 4096 mod 64),
         of_nat (0x80 + n div 64 mod 64), of_nat (0x80 + n mod 64)])"

text \<open>
  A high surrogate followed by a low surrogate is one code point of four bytes;
  a surrogate on its own is written as U+FFFD.
\<close>

fun utf8_encode :: "jsstring \<Rightarrow> byte list" where
  "utf8_encode [] = []"
| "utf8_encode [c] =
     (if is_high_surrogate c \<or> is_low_surrogate c then [0xEF, 0xBF, 0xBD]
      else utf8_bytes (unat c))"
| "utf8_encode (c # d # r) =
     (if is_high_surrogate c \<and> is_low_surrogate d
      then utf8_bytes (0x10000 + (unat c - 0xD800) * 1024 + (unat d - 0xDC00)) @ utf8_encode r
      else if is_high_surrogate c \<or> is_low_surrogate c
      then [0xEF, 0xBF, 0xBD] @ utf8_encode (d # r)
      else utf8_bytes (unat c) @ utf8_encode (d # r))"

subsection \<open>\<^verbatim>\<open>buf.toString('base64')\<close>: the base64 text of bytes\<close>

definition base64_alphabet :: jsstring where
  "base64_alphabet = js ''ABCDEFGHIJKLMNOPQRSTUVWXYZabcdefghijklmnopqrstuvwxyz0123456789+/''"

definition base64_digit :: "nat \<Rightarrow> jschar" where
  "base64_digit n = base64_alphabet ! (n mod 64)"

text \<open>
  Three bytes give four digits of six bits; a rest of one or two bytes is
  padded with \<^verbatim>\<open>=\<close>.
\<close>

fun to_base64 :: "byte list \<Rightarrow> jsstring" where
  "to_base64 [] = []"
| "to_base64 [a] =
     [base64_digit (unat a div 4), base64_digit (unat a mod 4 * 16)] @ js ''==''"
| "to_base64 [a, b] =
     [base64_digit (unat a div 4), base64_digit (unat a mod 4 * 16 + unat b div 16),
      base64_digit (unat b mod 16 * 4)] @ js ''=''"
| "to_base64 (a # b # c # r) =
     [base64_digit (unat a div 4), base64_digit (unat a mod 4 * 16 + unat b div 16),
      base64_digit (unat b mod 16 * 4 + unat c div 64), base64_digit (unat c mod 64)]
     @ to_base64 r"

section \<open>Errors\<close>

text \<open>
  A thrown value is an error object with a name and a message.
  \<^verbatim>\<open>new Error(m)\<close> has the name \<^verbatim>\<open>Error\<close>.
\<close>

datatype js_error = JsError (err_name: jsstring) (err_message: jsstring)

definition Error :: "jsstring \<Rightarrow> js_error" where
  "Error m = JsError (js ''Error'') m"

definition TypeError :: "jsstring \<Rightarrow> js_error" where
  "TypeError m = JsError (js ''TypeError'') m"

definition RangeError :: "jsstring \<Rightarrow> js_error" where
  "RangeError m = JsError (js ''RangeError'') m"

text \<open>\<^verbatim>\<open>Error.prototype.toString\<close>.\<close>

definition error_toString :: "js_error \<Rightarrow> jsstring" where
  "error_toString e =
     (if err_name e = [] then err_message e
      else if err_message e = [] then err_name e
      else err_name e @ js '': '' @ err_message e)"

text \<open>
  \<^verbatim>\<open>String(e?.message || e)\<close>, with \<open>None\<close> for a variable that is still
  \<^verbatim>\<open>undefined\<close>.
\<close>

definition message_or_error :: "js_error option \<Rightarrow> jsstring" where
  "message_or_error lastErr =
     (case lastErr of
        None \<Rightarrow> js ''undefined''
      | Some e \<Rightarrow> if err_message e \<noteq> [] then err_message e else error_toString e)"

section \<open>Signature verification\<close>

text \<open>
  \<^verbatim>\<open>crypto.timingSafeEqual\<close> throws a RangeError on buffers of different
  lengths and compares the bytes otherwise.
\<close>

definition timingSafeEqual :: "byte list \<Rightarrow> byte list \<Rightarrow> js_error + bool" where
  "timingSafeEqual a b =
     (if length a \<noteq> length b
      then Inl (RangeError (js ''Input buffers must have the same byte length''))
      else Inr (a = b))"

text \<open>
  The keyed hash is Node's: \<open>hmac key body\<close> stands for
  \<^verbatim>\<open>createHmac('sha256', key).update(body, 'utf8').digest('base64')\<close>.
  The header is \<open>None\<close> when the request has none.
\<close>

definition verifyLineSignature ::
  "(jsstring \<Rightarrow> jsstring \<Rightarrow> jsstring) \<Rightarrow> jsstring \<Rightarrow> jsstring option \<Rightarrow> jsstring \<Rightarrow> js_error + bool" where
  "verifyLineSignature hmac rawBody signatureHeader channelSecret =
     (case signatureHeader of
        None \<Rightarrow> Inr False
      | Some h \<Rightarrow>
          if h = [] then Inr False
          else
            let expected = hmac channelSecret rawBody;
                a = utf8_encode expected;
                b = utf8_encode h
            in if length a \<noteq> length b then Inr False else timingSafeEqual a b)"

section \<open>Time parts and the note path\<close>

text \<open>
  \<^verbatim>\<open>formatTokyoParts\<close> reads the parts that \<^verbatim>\<open>Intl.DateTimeFormat\<close> gives for the
  current instant in Asia/Tokyo. The formatter is outside the repository: its
  parts are the input here.
\<close>

record intl_parts =
  year :: jsstring
  month :: jsstring
  day :: jsstring
  hour :: jsstring
  minute :: jsstring
  second :: jsstring

record tokyoParts =
  yyyy :: jsstring
  yy :: jsstring
  mm :: jsstring
  dd :: jsstring
  HH :: jsstring
  MM :: jsstring
  SS :: jsstring
  date :: jsstring

text \<open>\<^verbatim>\<open>s.slice(-2)\<close>: the last two code units, or all of a shorter string.\<close>

definition slice_last2 :: "jsstring \<Rightarrow> jsstring" where
  "slice_last2 s = drop (length s - 2) s"

definition formatTokyoParts :: "intl_parts \<Rightarrow> tokyoParts" where
  "formatTokyoParts parts =
     \<lparr> yyyy = year parts, yy = slice_last2 (year parts), mm = month parts, dd = day parts,
       HH = hour parts, MM = minute parts, SS = second parts,
       date = year parts @ js ''-'' @ month parts @ js ''-'' @ day parts \<rparr>"

definition buildNotePath :: "jsstring \<Rightarrow> tokyoParts \<Rightarrow> jsstring" where
  "buildNotePath template t =
     replaceAll (replaceAll (replaceAll (replaceAll (replaceAll template
       (js ''{yyyy}'') (yyyy t))
       (js ''{yy}'') (yy t))
       (js ''{mm}'') (mm t))
       (js ''{dd}'') (dd t))
       (js ''{date}'') (date t)"

section \<open>JSON values\<close>

text \<open>
  The values that \<^verbatim>\<open>JSON.parse\<close> builds. A number is held as the text that
  \<^verbatim>\<open>String\<close> gives for it, the one thing besides its truth value that the
  handler reads of a number. An object is its list of properties, each key once.
  A JavaScript value that may be \<^verbatim>\<open>undefined\<close> is a \<open>json option\<close>.
\<close>

datatype json =
    JNull
  | JBool bool
  | JNum jsstring
  | JStr jsstring
  | JArr "json list"
  | JObj "(jsstring \<times> json) list"

text \<open>
  \<^verbatim>\<open>v?.k\<close> and \<^verbatim>\<open>v.k\<close>, for the property names the handler reads
  (none of them is defined on a built-in prototype): only an object has the
  property; \<^verbatim>\<open>v.k\<close> throws on \<^verbatim>\<open>null\<close> and \<^verbatim>\<open>undefined\<close>.
\<close>

fun opt_get :: "json option \<Rightarrow> jsstring \<Rightarrow> json option" where
  "opt_get (Some (JObj kvs)) k = map_of kvs k"
| "opt_get _ k = None"

fun dot_get :: "json option \<Rightarrow> jsstring \<Rightarrow> js_error + json option" where
  "dot_get None k =
     Inl (TypeError (js ''Cannot read properties of undefined (reading '' @ [QUOTE] @ k @ [QUOTE] @ js '')''))"
| "dot_get (Some JNull) k =
     Inl (TypeError (js ''Cannot read properties of null (reading '' @ [QUOTE] @ k @ [QUOTE] @ js '')''))"
| "dot_get (Some v) k = Inr (opt_get (Some v) k)"

fun truthy :: "json option \<Rightarrow> bool" where
  "truthy None = False"
| "truthy (Some JNull) = False"
| "truthy (Some (JBool b)) = b"
| "truthy (Some (JNum n)) = (n \<noteq> js ''0'' \<and> n \<noteq> js ''NaN'')"
| "truthy (Some (JStr s)) = (s \<noteq> [])"
| "truthy (Some (JArr xs)) = True"
| "truthy (Some (JObj kvs)) = True"

text \<open>
  \<^verbatim>\<open>String(v)\<close>. An array joins its elements with commas, \<^verbatim>\<open>null\<close> elements
  as the empty string. An object takes \<^verbatim>\<open>toString\<close> from its prototype, unless
  it has a property of that name: a parsed value is never callable, and the
  conversion throws.
\<close>

fun js_String :: "json \<Rightarrow> js_error + jsstring"
  and join_elements :: "json list \<Rightarrow> js_error + jsstring"
  and element_String :: "json \<Rightarrow> js_error + jsstring" where
  "js_String JNull = Inr (js ''null'')"
| "js_String (JBool b) = Inr (if b then js ''true'' else js ''false'')"
| "js_String (JNum n) = Inr n"
| "js_String (JStr s) = Inr s"
| "js_String (JArr xs) = join_elements xs"
| "js_String (JObj kvs) =
     (if map_of kvs (js ''toString'') \<noteq> None
      then Inl (TypeError (js ''Cannot convert object to primitive value''))
      else Inr (js ''[object Object]''))"
| "join_elements [] = Inr []"
| "join_elements [x] = element_String x"
| "join_elements (x # y # r) =
     (case element_String x of
        Inl e \<Rightarrow> Inl e
      | Inr s \<Rightarrow> (case join_elements (y # r) of
                    Inl e \<Rightarrow> Inl e
                  | Inr t \<Rightarrow> Inr (s @ js '','' @ t)))"
| "element_String JNull = Inr []"
| "element_String (JBool b) = js_String (JBool b)"
| "element_String (JNum n) = js_String (JNum n)"
| "element_String (JStr s) = js_String (JStr s)"
| "element_String (JArr xs) = js_String (JArr xs)"
| "element_String (JObj kvs) = js_String (JObj kvs)"

section \<open>Event extraction\<close>

record message =
  text_msg :: jsstring
  userId :: "jsstring option"

text \<open>\<^verbatim>\<open>Array.isArray(payload?.events) ? payload.events : []\<close>\<close>

definition events_of :: "json \<Rightarrow> json list" where
  "events_of payload =
     (case opt_get (Some payload) (js ''events'') of
        Some (JArr es) \<Rightarrow> es
      | _ \<Rightarrow> [])"

text \<open>\<^verbatim>\<open>e?.type === 'message' && e?.message?.type === 'text'\<close>\<close>

definition is_text_event :: "json \<Rightarrow> bool" where
  "is_text_event e \<longleftrightarrow>
     opt_get (Some e) (js ''type'') = Some (JStr (js ''message''))
     \<and> opt_get (opt_get (Some e) (js ''message'')) (js ''type'') = Some (JStr (js ''text''))"

text \<open>\<^verbatim>\<open>v ?? ''\<close>\<close>

fun nullish_empty :: "json option \<Rightarrow> json" where
  "nullish_empty None = JStr []"
| "nullish_empty (Some JNull) = JStr []"
| "nullish_empty (Some v) = v"

text \<open>
  The callback of \<^verbatim>\<open>map\<close>: first \<^verbatim>\<open>String(e.message.text ?? '')\<close>, then
  \<^verbatim>\<open>e?.source?.userId ? String(e.source.userId) : null\<close>.
\<close>

definition to_message :: "json \<Rightarrow> js_error + message" where
  "to_message e =
     (case dot_get (Some e) (js ''message'') of
        Inl err \<Rightarrow> Inl err
      | Inr m \<Rightarrow>
     (case dot_get m (js ''text'') of
        Inl err \<Rightarrow> Inl err
      | Inr tx \<Rightarrow>
     (case js_String (nullish_empty tx) of
        Inl err \<Rightarrow> Inl err
      | Inr s \<Rightarrow>
          if truthy (opt_get (opt_get (Some e) (js ''source'')) (js ''userId''))
          then
            (case dot_get (Some e) (js ''source'') of
               Inl err \<Rightarrow> Inl err
             | Inr src \<Rightarrow>
            (case dot_get src (js ''userId'') of
               Inl err \<Rightarrow> Inl err
             | Inr uid \<Rightarrow>
            (case uid of
               None \<Rightarrow> Inr \<lparr> text_msg = s, userId = Some (js ''undefined'') \<rparr>
             | Some u \<Rightarrow>
            (case js_String u of
               Inl err \<Rightarrow> Inl err
             | Inr us \<Rightarrow> Inr \<lparr> text_msg = s, userId = Some us \<rparr>))))
          else Inr \<lparr> text_msg = s, userId = None \<rparr>)))"

text \<open>\<^verbatim>\<open>xs.map(f)\<close> where \<open>f\<close> may throw: the first throw ends the map.\<close>

fun map_throwing :: "('a \<Rightarrow> js_error + 'b) \<Rightarrow> 'a list \<Rightarrow> js_error + 'b list" where
  "map_throwing f [] = Inr []"
| "map_throwing f (x # xs) =
     (case f x of
        Inl err \<Rightarrow> Inl err
      | Inr y \<Rightarrow> (case map_throwing f xs of
                    Inl err \<Rightarrow> Inl err
                  | Inr ys \<Rightarrow> Inr (y # ys)))"

definition textMessages :: "json \<Rightarrow> js_error + message list" where
  "textMessages payload =
     (case map_throwing to_message (filter is_text_event (events_of payload)) of
        Inl err \<Rightarrow> Inl err
      | Inr ms \<Rightarrow> Inr (filter (\<lambda>m. length (trim (text_msg m)) > 0) ms))"

section \<open>The remote store\<close>

text \<open>
  The body of a PUT, before \<^verbatim>\<open>JSON.stringify\<close>: \<open>sha\<close> is \<open>None\<close> when the
  object has no such property.
\<close>

record put_body =
  message :: jsstring
  content :: jsstring
  branch :: jsstring
  sha :: "json option"

record http_request =
  req_method :: jsstring
  req_url :: jsstring
  req_headers :: "(jsstring \<times> jsstring) list"
  req_body :: "put_body option"

text \<open>
  What \<^verbatim>\<open>fetch\<close> gives: a rejection, or a response with its status and the
  outcome of reading its body (\<^verbatim>\<open>res.text()\<close>).
\<close>

record http_response =
  status :: nat
  body_text :: "js_error + jsstring"

datatype http_outcome = Rejected js_error | Responded http_response

definition res_ok :: "http_response \<Rightarrow> bool" where
  "res_ok res \<longleftrightarrow> 200 \<le> status res \<and> status res \<le> 299"

text \<open>
  What the handler does to the world, in order: reads of \<^verbatim>\<open>process.env\<close>,
  calls of \<^verbatim>\<open>context.log\<close>, requests sent with \<^verbatim>\<open>fetch\<close>, and waits.
\<close>

datatype effect =
    EnvRead jsstring
  | Log "jsstring list"
  | Http http_request
  | Sleep nat

fun requests_of :: "effect list \<Rightarrow> http_request list" where
  "requests_of [] = []"
| "requests_of (Http r # es) = r # requests_of es"
| "requests_of (_ # es) = requests_of es"

text \<open>
  The platform under the handler. \<open>fetch\<close> answers a request given the requests
  sent before it; \<open>buffer_from_base64\<close> is
  \<^verbatim>\<open>Buffer.from(v, 'base64').toString('utf8')\<close>; \<open>now\<close> is what the date
  formatter gives for the current instant.
\<close>

record runtime =
  hmac_sha256_base64 :: "jsstring \<Rightarrow> jsstring \<Rightarrow> jsstring"
  json_parse :: "jsstring \<Rightarrow> js_error + json"
  encodeURIComponent :: "jsstring \<Rightarrow> js_error + jsstring"
  buffer_from_base64 :: "json \<Rightarrow> js_error + jsstring"
  fetch :: "http_request list \<Rightarrow> http_request \<Rightarrow> http_outcome"
  now :: intl_parts

definition githubRequest ::
  "runtime \<Rightarrow> effect list \<Rightarrow> jsstring \<Rightarrow> jsstring \<Rightarrow> jsstring \<Rightarrow> put_body option
     \<Rightarrow> (jsstring \<times> jsstring) list \<Rightarrow> (js_error + http_response) \<times> effect list" where
  "githubRequest rt tr url method token body headers =
     (let req = \<lparr> req_method = method, req_url = url,
                  req_headers =
                    [(js ''Authorization'', js ''Bearer '' @ token),
                     (js ''Accept'', js ''application/vnd.github+json''),
                     (js ''X-GitHub-Api-Version'', js ''2022-11-28'')] @ headers,
                  req_body = body \<rparr>
      in (case fetch rt (requests_of tr) req of
            Rejected e \<Rightarrow> Inl e
          | Responded res \<Rightarrow> Inr res,
          tr @ [Http req]))"

text \<open>\<^verbatim>\<open>{ exists: false }\<close> or \<^verbatim>\<open>{ exists: true, sha, content }\<close>\<close>

datatype remote_file = Absent | Present "json option" jsstring

text \<open>\<^verbatim>\<open>v || ''\<close>\<close>

definition or_empty :: "json option \<Rightarrow> json" where
  "or_empty v = (if truthy v then the v else JStr [])"

definition getGitHubFile ::
  "runtime \<Rightarrow> effect list \<Rightarrow> jsstring \<Rightarrow> jsstring \<Rightarrow> jsstring \<Rightarrow> jsstring \<Rightarrow> jsstring
     \<Rightarrow> (js_error + remote_file) \<times> effect list" where
  "getGitHubFile rt tr owner repo path branch_name token =
     (case encodeURIComponent rt owner of Inl e \<Rightarrow> (Inl e, tr) | Inr ow \<Rightarrow>
     (case encodeURIComponent rt repo of Inl e \<Rightarrow> (Inl e, tr) | Inr rp \<Rightarrow>
     (case encodeURIComponent rt branch_name of Inl e \<Rightarrow> (Inl e, tr) | Inr b \<Rightarrow>
     (let url = js ''https://api.github.com/repos/'' @ ow @ js ''/'' @ rp @ js ''/contents/''
                  @ path @ js ''?ref='' @ b
      in case githubRequest rt tr url (js ''GET'') token None [] of
           (Inl e, tr') \<Rightarrow> (Inl e, tr')
         | (Inr res, tr') \<Rightarrow>
             if status res = 404 then (Inr Absent, tr')
             else if \<not> res_ok res then
               (case body_text res of
                  Inl e \<Rightarrow> (Inl e, tr')
                | Inr t \<Rightarrow>
                    (Inl (Error (js ''GitHub GET failed ('' @ digits (status res) @ js ''): '' @ t)), tr'))
             else
               (case body_text res of Inl e \<Rightarrow> (Inl e, tr') | Inr t \<Rightarrow>
               (case json_parse rt t of Inl e \<Rightarrow> (Inl e, tr') | Inr json \<Rightarrow>
               (case dot_get (Some json) (js ''content'') of Inl e \<Rightarrow> (Inl e, tr') | Inr c \<Rightarrow>
               (case buffer_from_base64 rt (or_empty c) of Inl e \<Rightarrow> (Inl e, tr') | Inr decoded \<Rightarrow>
               (case dot_get (Some json) (js ''sha'') of Inl e \<Rightarrow> (Inl e, tr') | Inr s \<Rightarrow>
                  (Inr (Present s decoded), tr'))))))))))"

definition putGitHubFile ::
  "runtime \<Rightarrow> effect list \<Rightarrow> jsstring \<Rightarrow> jsstring \<Rightarrow> jsstring \<Rightarrow> jsstring \<Rightarrow> jsstring
     \<Rightarrow> jsstring \<Rightarrow> json option \<Rightarrow> jsstring \<Rightarrow> (js_error + json) \<times> effect list" where
  "putGitHubFile rt tr owner repo path branch_name token new_content sha_arg commit_message =
     (case encodeURIComponent rt owner of Inl e \<Rightarrow> (Inl e, tr) | Inr ow \<Rightarrow>
     (case encodeURIComponent rt repo of Inl e \<Rightarrow> (Inl e, tr) | Inr rp \<Rightarrow>
     (let url = js ''https://api.github.com/repos/'' @ ow @ js ''/'' @ rp @ js ''/contents/'' @ path;
          body = \<lparr> message = commit_message,
                   content = to_base64 (utf8_encode new_content),
                   branch = branch_name,
                   sha = (if truthy sha_arg then sha_arg else None) \<rparr>
      in case githubRequest rt tr url (js ''PUT'') token (Some body)
                [(js ''Content-Type'', js ''application/json'')] of
           (Inl e, tr') \<Rightarrow> (Inl e, tr')
         | (Inr res, tr') \<Rightarrow>
             if \<not> res_ok res then
               (case body_text res of
                  Inl e \<Rightarrow> (Inl e, tr')
                | Inr t \<Rightarrow>
                    (Inl (Error (js ''GitHub PUT failed ('' @ digits (status res) @ js ''): '' @ t)), tr'))
             else
               (case body_text res of Inl e \<Rightarrow> (Inl e, tr') | Inr t \<Rightarrow>
               (case json_parse rt t of Inl e \<Rightarrow> (Inl e, tr') | Inr json \<Rightarrow>
                  (Inr json, tr'))))))"

definition ensureEndsWithNewline :: "jsstring \<Rightarrow> jsstring" where
  "ensureEndsWithNewline s =
     (if s = [] then [LF] else if endsWith s [LF] then s else s @ [LF])"

section \<open>The handler\<close>

type_synonym env = "jsstring \<Rightarrow> jsstring option"

definition requireEnv :: "env \<Rightarrow> jsstring \<Rightarrow> js_error + jsstring" where
  "requireEnv env name =
     (case env name of
        None \<Rightarrow> Inl (Error (js ''Missing env: '' @ name))
      | Some v \<Rightarrow> if v = [] then Inl (Error (js ''Missing env: '' @ name)) else Inr v)"

text \<open>\<^verbatim>\<open>process.env.NAME || 'default'\<close>\<close>

definition env_or :: "env \<Rightarrow> jsstring \<Rightarrow> jsstring \<Rightarrow> jsstring" where
  "env_or env name dflt =
     (case env name of None \<Rightarrow> dflt | Some v \<Rightarrow> if v = [] then dflt else v)"

text \<open>The request as the handler reads it, and what the handler returns.\<close>

record request =
  request_method :: jsstring
  request_header :: "jsstring \<Rightarrow> jsstring option"
  request_text :: jsstring

record reply =
  status_code :: nat
  jsonBody :: json

text \<open>
  The line of one message:
  \<^verbatim>\<open>`- ${time} ${m.text.replaceAll('\r\n', '\n').replaceAll('\r', '\n')}`\<close>
\<close>

definition render_line :: "tokyoParts \<Rightarrow> message \<Rightarrow> jsstring" where
  "render_line t m =
     (let time = HH t @ js '':'' @ MM t
      in js ''- '' @ time @ js '' ''
         @ replaceAll (replaceAll (text_msg m) [CR, LF] [LF]) [CR] [LF])"

definition render_entry :: "tokyoParts \<Rightarrow> message list \<Rightarrow> jsstring" where
  "render_entry t ms = join (map (render_line t) ms) [LF] @ [LF]"

text \<open>The constants of one run of the retry loop.\<close>

record append_job =
  job_owner :: jsstring
  job_repo :: jsstring
  job_branch :: jsstring
  job_token :: jsstring
  job_path :: jsstring
  job_date :: jsstring
  job_entry :: jsstring
  job_commitMsg :: jsstring
  job_count :: nat

text \<open>The body of the \<^verbatim>\<open>try\<close> block: fetch, merge, write, return.\<close>

definition attempt :: "runtime \<Rightarrow> append_job \<Rightarrow> effect list \<Rightarrow> (js_error + reply) \<times> effect list" where
  "attempt rt j tr =
     (case getGitHubFile rt tr (job_owner j) (job_repo j) (job_path j) (job_branch j) (job_token j) of
        (Inl e, tr1) \<Rightarrow> (Inl e, tr1)
      | (Inr cur, tr1) \<Rightarrow>
          (let nextContent =
                 (case cur of
                    Absent \<Rightarrow> js ''# '' @ job_date j @ [LF, LF] @ job_entry j
                  | Present s c \<Rightarrow> ensureEndsWithNewline c @ job_entry j);
               sha_arg = (case cur of Absent \<Rightarrow> None | Present s c \<Rightarrow> s)
           in case putGitHubFile rt tr1 (job_owner j) (job_repo j) (job_path j) (job_branch j)
                     (job_token j) nextContent sha_arg (job_commitMsg j) of
                (Inl e, tr2) \<Rightarrow> (Inl e, tr2)
              | (Inr written, tr2) \<Rightarrow>
                  (Inr \<lparr> status_code = 200,
                         jsonBody = JObj [(js ''ok'', JBool True),
                                          (js ''appended'', JNum (digits (job_count j))),
                                          (js ''path'', JStr (job_path j))] \<rparr>,
                   tr2)))"

text \<open>
  \<^verbatim>\<open>for (let attempt = 1; attempt <= 3; attempt++)\<close>: the loop ends by the
  \<^verbatim>\<open>return\<close> of an attempt, or falls through to the code behind it with
  \<^verbatim>\<open>lastErr\<close>.
\<close>

datatype loop_exit = Returned reply | Fell_through "js_error option"

function retry_loop ::
  "runtime \<Rightarrow> append_job \<Rightarrow> nat \<Rightarrow> js_error option \<Rightarrow> effect list \<Rightarrow> loop_exit \<times> effect list" where
  "retry_loop rt j attempt_no lastErr tr =
     (if attempt_no \<le> 3 then
        (case attempt rt j tr of
           (Inr r, tr') \<Rightarrow> (Returned r, tr')
         | (Inl e, tr') \<Rightarrow>
             (let msg = message_or_error (Some e);
                  isConflict = (js_includes msg (js ''(409)'') \<or> js_includes msg (js ''409''))
              in if \<not> isConflict \<or> attempt_no = 3 then (Fell_through (Some e), tr')
                 else retry_loop rt j (attempt_no + 1) (Some e) (tr' @ [Sleep (150 * attempt_no)])))
      else (Fell_through lastErr, tr))"
  by pat_completeness auto
termination
  by (relation "measure (\<lambda>(rt, j, attempt_no, lastErr, tr). 4 - attempt_no)") auto

declare retry_loop.simps [simp del]

text \<open>
  The constants that the handler computes between \<^verbatim>\<open>requireEnv('GITHUB_TOKEN')\<close>
  and the loop: the store coordinates from the environment, the path, the block
  and the commit message from the time parts.
\<close>

definition append_job_of :: "runtime \<Rightarrow> env \<Rightarrow> message list \<Rightarrow> jsstring \<Rightarrow> append_job" where
  "append_job_of rt env textMessages_v ghToken =
     (let owner = env_or env (js ''GITHUB_OWNER'') (js ''KijimaMotofumi'');
          repo = env_or env (js ''GITHUB_REPO'') (js ''note'');
          branch_name = env_or env (js ''GITHUB_BRANCH'') (js ''main'');
          template = env_or env (js ''NOTE_FILE_PATH_TEMPLATE'') (js ''daily/{date}.md'');
          t = formatTokyoParts (now rt);
          path = buildNotePath template t;
          entry = render_entry t textMessages_v;
          commitMsg = js ''note: append from LINE ('' @ date t @ js '')''
      in \<lparr> job_owner = owner, job_repo = repo, job_branch = branch_name,
           job_token = ghToken, job_path = path, job_date = date t,
           job_entry = entry, job_commitMsg = commitMsg,
           job_count = length textMessages_v \<rparr>)"

text \<open>The handler from \<^verbatim>\<open>requireEnv('GITHUB_TOKEN')\<close> on.\<close>

definition append_notes ::
  "runtime \<Rightarrow> env \<Rightarrow> message list \<Rightarrow> effect list \<Rightarrow> (js_error + reply) \<times> effect list" where
  "append_notes rt env textMessages_v tr0 =
     (let tr1 = tr0 @ [EnvRead (js ''GITHUB_TOKEN'')]
      in case requireEnv env (js ''GITHUB_TOKEN'') of
           Inl e \<Rightarrow> (Inl e, tr1)
         | Inr ghToken \<Rightarrow>
             (let j = append_job_of rt env textMessages_v ghToken;
                  tr2 = tr1 @ [EnvRead (js ''GITHUB_OWNER''), EnvRead (js ''GITHUB_REPO''),
                               EnvRead (js ''GITHUB_BRANCH''), EnvRead (js ''NOTE_FILE_PATH_TEMPLATE'')]
              in case retry_loop rt j 1 None tr2 of
                   (Returned r, tr3) \<Rightarrow> (Inr r, tr3)
                 | (Fell_through lastErr, tr3) \<Rightarrow>
                     (Inr \<lparr> status_code = 200,
                            jsonBody = JObj [(js ''ok'', JBool False),
                                             (js ''error'', JStr (js ''append_failed'')),
                                             (js ''detail'', JStr (message_or_error lastErr)),
                                             (js ''path'', JStr (job_path j))] \<rparr>,
                      tr3 @ [Log [js ''Failed to append note:'', message_or_error lastErr]])))"

definition handler :: "runtime \<Rightarrow> env \<Rightarrow> request \<Rightarrow> (js_error + reply) \<times> effect list" where
  "handler rt env rq =
     (if request_method rq = js ''GET''
      then (Inr \<lparr> status_code = 200,
                  jsonBody = JObj [(js ''ok'', JBool True), (js ''name'', JStr (js ''note-push''))] \<rparr>,
            [])
      else
        (let rawBody = request_text rq;
             tr0 = [EnvRead (js ''LINE_CHANNEL_SECRET'')]
         in case requireEnv env (js ''LINE_CHANNEL_SECRET'') of
              Inl e \<Rightarrow> (Inl e, tr0)
            | Inr channelSecret \<Rightarrow>
                (case verifyLineSignature (hmac_sha256_base64 rt) rawBody
                        (request_header rq (js ''x-line-signature'')) channelSecret of
                   Inl e \<Rightarrow> (Inl e, tr0)
                 | Inr False \<Rightarrow>
                     (Inr \<lparr> status_code = 401,
                            jsonBody = JObj [(js ''ok'', JBool False),
                                             (js ''error'', JStr (js ''Invalid signature''))] \<rparr>,
                      tr0 @ [Log [js ''Invalid LINE signature'']])
                 | Inr True \<Rightarrow>
                     (case json_parse rt rawBody of
                        Inl e \<Rightarrow>
                          (Inr \<lparr> status_code = 400,
                                 jsonBody = JObj [(js ''ok'', JBool False),
                                                  (js ''error'', JStr (js ''Invalid JSON''))] \<rparr>,
                           tr0)
                      | Inr payload \<Rightarrow>
                          (case textMessages payload of
                             Inl e \<Rightarrow> (Inl e, tr0)
                           | Inr ms \<Rightarrow>
                               if length ms = 0
                               then (Inr \<lparr> status_code = 200,
                                           jsonBody = JObj [(js ''ok'', JBool True),
                                                            (js ''appended'', JNum (js ''0''))] \<rparr>,
                                     tr0)
                               else append_notes rt env ms tr0)))))"

section \<open>The specification's words as functions\<close>

text \<open>
  These definitions follow the specification, not the code; the theorems
  compare the code with them.
\<close>

text \<open>
  Line breaks normalized to LF: a CR LF pair becomes one LF, a CR on its own
  becomes LF.
\<close>

fun normalize_newlines :: "jsstring \<Rightarrow> jsstring" where
  "normalize_newlines [] = []"
| "normalize_newlines [c] = (if c = CR then [LF] else [c])"
| "normalize_newlines (c # d # r) =
     (if c = CR \<and> d = LF then LF # normalize_newlines r
      else if c = CR then LF # normalize_newlines (d # r)
      else c # normalize_newlines (d # r))"

text \<open>A string that ends with one newline and not with two.\<close>

definition single_trailing_newline :: "jsstring \<Rightarrow> bool" where
  "single_trailing_newline s \<longleftrightarrow> endsWith s [LF] \<and> \<not> endsWith s [LF, LF]"

text \<open>
  Path resolution in one pass from left to right: at a placeholder, the field
  of the time parts; any other code unit as it is.
\<close>

function resolve_spec :: "tokyoParts \<Rightarrow> jsstring \<Rightarrow> jsstring" where
  "resolve_spec t s =
     (if prefix (js ''{yyyy}'') s then yyyy t @ resolve_spec t (drop (length (js ''{yyyy}'')) s)
      else if prefix (js ''{yy}'') s then yy t @ resolve_spec t (drop (length (js ''{yy}'')) s)
      else if prefix (js ''{mm}'') s then mm t @ resolve_spec t (drop (length (js ''{mm}'')) s)
      else if prefix (js ''{dd}'') s then dd t @ resolve_spec t (drop (length (js ''{dd}'')) s)
      else if prefix (js ''{date}'') s then date t @ resolve_spec t (drop (length (js ''{date}'')) s)
      else (case s of [] \<Rightarrow> [] | c # cs \<Rightarrow> c # resolve_spec t cs))"
  by pat_completeness auto
termination
  by (relation "measure (\<lambda>(t, s). length s)") (auto simp: prefix_def js_def)

declare resolve_spec.simps [simp del]

text \<open>
  The time parts as the specification has them: decimal strings. What the
  proof needs of a field is less.
\<close>

definition decimal_string :: "jsstring \<Rightarrow> bool" where
  "decimal_string f \<longleftrightarrow> f \<noteq> [] \<and> list_all (\<lambda>c. 0x30 \<le> c \<and> c \<le> 0x39) f"

definition decimal_parts :: "intl_parts \<Rightarrow> bool" where
  "decimal_parts parts \<longleftrightarrow>
     decimal_string (year parts) \<and> decimal_string (month parts) \<and> decimal_string (day parts)"

text \<open>A value that is not empty and has none of the characters of a placeholder, nor a dollar sign.\<close>

definition plain_value :: "jsstring \<Rightarrow> bool" where
  "plain_value v \<longleftrightarrow> v \<noteq> [] \<and> list_all (\<lambda>c. c \<notin> set (js ''${}ymdate'')) v"

text \<open>
  A pattern of the shape of the five placeholders: an opening brace, then only
  letters of the placeholders and the closing brace.
\<close>

definition placeholder :: "jsstring \<Rightarrow> bool" where
  "placeholder p \<longleftrightarrow>
     (case p of [] \<Rightarrow> False | c # w \<Rightarrow> c = LBRACE \<and> list_all (\<lambda>d. d \<in> set (js ''}ymdate'')) w)"

definition plain_parts :: "tokyoParts \<Rightarrow> bool" where
  "plain_parts t \<longleftrightarrow>
     plain_value (yyyy t) \<and> plain_value (yy t) \<and> plain_value (mm t) \<and> plain_value (dd t)
     \<and> plain_value (date t)"

text \<open>
  The text of a base64 digest: not empty, and of the base64 alphabet.
\<close>

definition is_base64_char :: "jschar \<Rightarrow> bool" where
  "is_base64_char c \<longleftrightarrow>
     (0x41 \<le> c \<and> c \<le> 0x5A) \<or> (0x61 \<le> c \<and> c \<le> 0x7A) \<or> (0x30 \<le> c \<and> c \<le> 0x39)
     \<or> c = 0x2B \<or> c = 0x2F \<or> c = 0x3D"

definition base64_text :: "jsstring \<Rightarrow> bool" where
  "base64_text s \<longleftrightarrow> s \<noteq> [] \<and> list_all is_base64_char s"

text \<open>
  An event qualifies when its type is \<^verbatim>\<open>message\<close>, its message type is
  \<^verbatim>\<open>text\<close>, and its text, as a string, has a code unit that is not white
  space.
\<close>

definition event_text :: "json \<Rightarrow> js_error + jsstring" where
  "event_text e =
     js_String (nullish_empty (opt_get (opt_get (Some e) (js ''message'')) (js ''text'')))"

definition qualifies :: "json \<Rightarrow> bool" where
  "qualifies e \<longleftrightarrow>
     opt_get (Some e) (js ''type'') = Some (JStr (js ''message''))
     \<and> opt_get (opt_get (Some e) (js ''message'')) (js ''type'') = Some (JStr (js ''text''))
     \<and> (case event_text e of
          Inl err \<Rightarrow> False
        | Inr s \<Rightarrow> list_ex (\<lambda>c. \<not> is_js_space c) s)"

text \<open>
  Events as the sender writes them: the text and the user id are strings, or
  at least no arrays or objects.
\<close>

fun primitive_or_absent :: "json option \<Rightarrow> bool" where
  "primitive_or_absent (Some (JArr xs)) = False"
| "primitive_or_absent (Some (JObj kvs)) = False"
| "primitive_or_absent _ = True"

definition plain_fields :: "json \<Rightarrow> bool" where
  "plain_fields e \<longleftrightarrow>
     primitive_or_absent (opt_get (opt_get (Some e) (js ''message'')) (js ''text''))
     \<and> primitive_or_absent (opt_get (opt_get (Some e) (js ''source'')) (js ''userId''))"

text \<open>
  What one attempt adds to the effects: the fetch \<open>g\<close> of the document, alone
  or followed by one write, a PUT. An attempt that sends nothing, or that writes
  without having fetched, is none.
\<close>

fun is_attempt_trace :: "http_request \<Rightarrow> effect list \<Rightarrow> bool" where
  "is_attempt_trace g [Http r] = (r = g)"
| "is_attempt_trace g [Http r, Http p] = (r = g \<and> req_method p = js ''PUT'')"
| "is_attempt_trace g _ = False"

text \<open>
  The effects of consecutive attempts, with the wait of 150 ms times the attempt
  number between them.
\<close>

fun with_backoff :: "nat \<Rightarrow> effect list list \<Rightarrow> effect list" where
  "with_backoff n [] = []"
| "with_backoff n [a] = a"
| "with_backoff n (a # b # r) = a @ [Sleep (150 * n)] @ with_backoff (Suc n) (b # r)"


definition failure_reply :: "append_job \<Rightarrow> js_error option \<Rightarrow> reply" where
  "failure_reply j lastErr =
     \<lparr> status_code = 200,
       jsonBody = JObj [(js ''ok'', JBool False),
                        (js ''error'', JStr (js ''append_failed'')),
                        (js ''detail'', JStr (message_or_error lastErr)),
                        (js ''path'', JStr (job_path j))] \<rparr>"

text \<open>The request that \<^verbatim>\<open>putGitHubFile\<close> sends.\<close>

definition put_request ::
  "jsstring \<Rightarrow> jsstring \<Rightarrow> jsstring \<Rightarrow> jsstring \<Rightarrow> jsstring \<Rightarrow> jsstring \<Rightarrow> json option
     \<Rightarrow> jsstring \<Rightarrow> http_request" where
  "put_request ow rp path br tok new_content sha_arg commit_message =
     \<lparr> req_method = js ''PUT'',
       req_url = js ''https://api.github.com/repos/'' @ ow @ js ''/'' @ rp @ js ''/contents/'' @ path,
       req_headers =
         [(js ''Authorization'', js ''Bearer '' @ tok),
          (js ''Accept'', js ''application/vnd.github+json''),
          (js ''X-GitHub-Api-Version'', js ''2022-11-28''),
          (js ''Content-Type'', js ''application/json'')],
       req_body = Some \<lparr> message = commit_message,
                         content = to_base64 (utf8_encode new_content),
                         branch = br,
                         sha = (if truthy sha_arg then sha_arg else None) \<rparr> \<rparr>"

text \<open>
  The reads of the environment between the signature check and the loop, and
  the request that \<^verbatim>\<open>getGitHubFile\<close> sends.
\<close>

definition store_reads :: "effect list" where
  "store_reads =
     [EnvRead (js ''GITHUB_TOKEN''), EnvRead (js ''GITHUB_OWNER''), EnvRead (js ''GITHUB_REPO''),
      EnvRead (js ''GITHUB_BRANCH''), EnvRead (js ''NOTE_FILE_PATH_TEMPLATE'')]"

definition get_request :: "jsstring \<Rightarrow> jsstring \<Rightarrow> jsstring \<Rightarrow> jsstring \<Rightarrow> jsstring \<Rightarrow> http_request" where
  "get_request ow rp path b tok =
     \<lparr> req_method = js ''GET'',
       req_url = js ''https://api.github.com/repos/'' @ ow @ js ''/'' @ rp @ js ''/contents/''
                  @ path @ js ''?ref='' @ b,
       req_headers =
         [(js ''Authorization'', js ''Bearer '' @ tok),
          (js ''Accept'', js ''application/vnd.github+json''),
          (js ''X-GitHub-Api-Version'', js ''2022-11-28'')],
       req_body = None \<rparr>"

section \<open>A sample platform\<close>

text \<open>
  A small platform, environment and request on which the theorems are run: the
  texts on the wire, what \<^verbatim>\<open>JSON.parse\<close> makes of them, the base64 contents
  and what they decode to, and the digests under the channel secret \<^verbatim>\<open>s\<close>.
\<close>

definition text_event :: "jsstring \<Rightarrow> json" where
  "text_event s = JObj [(js ''type'', JStr (js ''message'')),
                        (js ''message'', JObj [(js ''type'', JStr (js ''text'')), (js ''text'', JStr s)])]"

definition image_event :: json where
  "image_event = JObj [(js ''type'', JStr (js ''message'')),
                       (js ''message'', JObj [(js ''type'', JStr (js ''image'')), (js ''id'', JStr (js ''1''))])]"

definition hello_body :: jsstring where
  "hello_body =
     js ''{\"events\":[{\"type\":\"message\",\"message\":{\"type\":\"text\",\"text\":\"hello\"}}]}''"

definition hello_payload :: json where
  "hello_payload =
     JObj [(js ''events'',
       JArr [JObj [(js ''type'', JStr (js ''message'')),
                   (js ''message'', JObj [(js ''type'', JStr (js ''text'')),
                                          (js ''text'', JStr (js ''hello''))])]])]"

text \<open>
  A text event whose user id is an object with a \<^verbatim>\<open>toString\<close> property, and
  payloads with it; a request with an image and a blank text.
\<close>

definition object_id_event :: "jsstring \<Rightarrow> json" where
  "object_id_event s =
     JObj [(js ''type'', JStr (js ''message'')),
           (js ''message'', JObj [(js ''type'', JStr (js ''text'')), (js ''text'', JStr s)]),
           (js ''source'', JObj [(js ''userId'', JObj [(js ''toString'', JNull)])])]"

definition object_id_payload :: json where
  "object_id_payload = JObj [(js ''events'', JArr [object_id_event (js ''first'')])]"

definition blank_body :: jsstring where
  "blank_body =
     js ''{\"events\":[{\"type\":\"message\",\"message\":{\"type\":\"image\",\"id\":\"1\"}},{\"type\":\"message\",\"message\":{\"type\":\"text\",\"text\":\"   \"}}]}''"

definition blank_payload :: json where
  "blank_payload = JObj [(js ''events'', JArr [image_event, text_event (js ''   '')])]"

definition blank_object_id_body :: jsstring where
  "blank_object_id_body =
     js ''{\"events\":[{\"type\":\"message\",\"message\":{\"type\":\"text\",\"text\":\"   \"},\"source\":{\"userId\":{\"toString\":null}}}]}''"

definition blank_object_id_payload :: json where
  "blank_object_id_payload = JObj [(js ''events'', JArr [object_id_event (js ''   '')])]"

text \<open>
  The store's answers for a file that reads \<^verbatim>\<open>a\<close>, one that reads \<^verbatim>\<open>a\<close> and
  two line feeds, and one that reads \<^verbatim>\<open>a\<close> and a line feed under an empty
  version token.
\<close>

definition file_a_body :: jsstring where
  "file_a_body = js ''{\"sha\":\"abc\",\"content\":\"YQ==\"}''"

definition file_a :: json where
  "file_a = JObj [(js ''sha'', JStr (js ''abc'')), (js ''content'', JStr (js ''YQ==''))]"

definition file_blank_line_body :: jsstring where
  "file_blank_line_body = js ''{\"sha\":\"abc\",\"content\":\"YQoK\"}''"

definition file_blank_line :: json where
  "file_blank_line = JObj [(js ''sha'', JStr (js ''abc'')), (js ''content'', JStr (js ''YQoK''))]"

definition file_no_sha_body :: jsstring where
  "file_no_sha_body = js ''{\"sha\":\"\",\"content\":\"YQo=\"}''"

definition file_no_sha :: json where
  "file_no_sha = JObj [(js ''sha'', JStr []), (js ''content'', JStr (js ''YQo=''))]"

text \<open>\<^verbatim>\<open>JSON.parse\<close> on the sample texts; any other text is refused here.\<close>

definition demo_parse :: "jsstring \<Rightarrow> js_error + json" where
  "demo_parse s =
     (if s = js ''{}'' then Inr (JObj [])
      else if s = hello_body then Inr hello_payload
      else if s = file_a_body then Inr file_a
      else if s = file_blank_line_body then Inr file_blank_line
      else if s = file_no_sha_body then Inr file_no_sha
      else if s = blank_body then Inr blank_payload
      else if s = blank_object_id_body then Inr blank_object_id_payload
      else Inl (JsError (js ''SyntaxError'') (js ''Unexpected token'')))"

text \<open>The base64 decoder on the sample contents.\<close>

definition demo_decode :: "json \<Rightarrow> js_error + jsstring" where
  "demo_decode v =
     (if v = JStr (js ''YQ=='') then Inr (js ''a'')
      else if v = JStr (js ''YQoK'') then Inr (js ''a'' @ [LF, LF])
      else if v = JStr (js ''YQo='') then Inr (js ''a'' @ [LF])
      else Inr [])"

text \<open>
  The HMAC-SHA256 digests, in base64, of the sample request bodies under the
  key \<^verbatim>\<open>s\<close>; any other input gets a fixed digest here.
\<close>

definition demo_hmac :: "jsstring \<Rightarrow> jsstring \<Rightarrow> jsstring" where
  "demo_hmac key_text body =
     (if key_text = js ''s'' \<and> body = js ''{}''
      then js ''FDyo1Re6GxgQJdcysc8nXZAQT8pXuwKlZVQpeKoYxLY=''
      else if key_text = js ''s'' \<and> body = hello_body
      then js ''N3ZrO1FPnXhz4H9NN/v8fdf5lY/9Ecy49m0QdTxqhlM=''
      else if key_text = js ''s'' \<and> body = blank_body
      then js ''izB1Ehh6tjWiXunK+cyiyo2tnYQYXST4OHmlCI7WnOk=''
      else if key_text = js ''s'' \<and> body = blank_object_id_body
      then js ''DarejZe6s/S+oMUoMQQJxFPlcacwUkxkryX0RqYfZJA=''
      else js ''AAAAAAAAAAAAAAAAAAAAAAAAAAAAAAAAAAAAAAAAAAA='')"

definition demo_rt :: runtime where
  "demo_rt = \<lparr> hmac_sha256_base64 = demo_hmac,
       json_parse = demo_parse,
       encodeURIComponent = Inr,
       buffer_from_base64 = demo_decode,
       fetch = (\<lambda>sent r. Rejected (TypeError (js ''fetch failed''))),
       now = \<lparr> year = js ''2026'', month = js ''01'', day = js ''02'',
               hour = js ''14'', minute = js ''03'', second = js ''59'' \<rparr> \<rparr>"


definition secret_only_env :: env where
  "secret_only_env name = (if name = js ''LINE_CHANNEL_SECRET'' then Some (js ''s'') else None)"

definition demo_post :: "jsstring \<Rightarrow> request" where
  "demo_post body = \<lparr> request_method = js ''POST'',
       request_header =
         (\<lambda>h. if h = js ''x-line-signature'' then Some (demo_hmac (js ''s'') body) else None),
       request_text = body \<rparr>"

definition demo_time :: tokyoParts where
  "demo_time = formatTokyoParts \<lparr> year = js ''2026'', month = js ''01'', day = js ''02'',
               hour = js ''14'', minute = js ''03'', second = js ''59'' \<rparr>"

definition demo_payload :: json where
  "demo_payload = JObj [(js ''events'',
      JArr [text_event (js ''hello''), image_event, text_event (js ''   ''), text_event (js ''world'')])]"

text \<open>
  A store that answers every GET with one status and body and every PUT with
  one status and the body \<^verbatim>\<open>{}\<close>.
\<close>

definition store_fetch :: "nat \<Rightarrow> jsstring \<Rightarrow> nat \<Rightarrow> http_request list \<Rightarrow> http_request \<Rightarrow> http_outcome" where
  "store_fetch get_status get_body put_status sent r =
     (if req_method r = js ''GET''
      then Responded \<lparr> status = get_status, body_text = Inr get_body \<rparr>
      else Responded \<lparr> status = put_status, body_text = Inr (js ''{}'') \<rparr>)"

definition store_rt :: "nat \<Rightarrow> jsstring \<Rightarrow> nat \<Rightarrow> runtime" where
  "store_rt get_status get_body put_status =
     demo_rt \<lparr> fetch := store_fetch get_status get_body put_status \<rparr>"

definition demo_job :: append_job where
  "demo_job = append_job_of demo_rt secret_only_env [\<lparr> text_msg = js ''hi'', userId = None \<rparr>] (js ''t'')"

definition fetch_of :: "runtime \<Rightarrow> append_job \<Rightarrow> effect list \<Rightarrow> (js_error + remote_file) \<times> effect list" where
  "fetch_of rt j tr =
     getGitHubFile rt tr (job_owner j) (job_repo j) (job_path j) (job_branch j) (job_token j)"


definition last_put_body :: "effect list \<Rightarrow> put_body option" where
  "last_put_body tr = (case rev (requests_of tr) of [] \<Rightarrow> None | r # rs \<Rightarrow> req_body r)"

text \<open>
  An environment with both required settings; a store whose every write is
  refused with status 409; a store whose every fetch fails with status 500 and
  a body that reads \<^verbatim>\<open>409\<close>; one whose every write is refused with status 409
  and a body that cannot be read.
\<close>

definition both_env :: env where
  "both_env name =
     (if name = js ''LINE_CHANNEL_SECRET'' then Some (js ''s'')
      else if name = js ''GITHUB_TOKEN'' then Some (js ''t'')
      else None)"

definition conflict_rt :: runtime where
  "conflict_rt = store_rt 200 file_a_body 409"

definition conflict_error :: js_error where
  "conflict_error = Error (js ''GitHub PUT failed (409): {}'')"

definition error500_rt :: runtime where
  "error500_rt = store_rt 500 (js ''409'') 200"

definition conflict_job :: append_job where
  "conflict_job = append_job_of conflict_rt both_env [\<lparr> text_msg = js ''hi'', userId = None \<rparr>] (js ''t'')"

definition error500 :: js_error where
  "error500 = Error (js ''GitHub GET failed (500): 409'')"

definition conflict_get :: http_request where
  "conflict_get = get_request (job_owner conflict_job) (job_repo conflict_job) (job_path conflict_job)
     (job_branch conflict_job) (job_token conflict_job)"

definition conflict_put :: http_request where
  "conflict_put = put_request (job_owner conflict_job) (job_repo conflict_job) (job_path conflict_job)
     (job_branch conflict_job) (job_token conflict_job) (js ''a'' @ [LF] @ job_entry conflict_job)
     (Some (JStr (js ''abc''))) (job_commitMsg conflict_job)"

definition unread_fetch :: "http_request list \<Rightarrow> http_request \<Rightarrow> http_outcome" where
  "unread_fetch sent r =
     (if req_method r = js ''GET''
      then Responded \<lparr> status = 200, body_text = Inr file_a_body \<rparr>
      else Responded \<lparr> status = 409, body_text = Inl (TypeError (js ''terminated'')) \<rparr>)"

definition unread_rt :: runtime where
  "unread_rt = demo_rt \<lparr> fetch := unread_fetch \<rparr>"

text \<open>
  \<^verbatim>\<open>encodeURIComponent\<close> on the samples: it throws on a surrogate and leaves a
  text of unreserved characters as it is. An environment whose owner is a lone
  surrogate.
\<close>

definition demo_encode :: "jsstring \<Rightarrow> js_error + jsstring" where
  "demo_encode s =
     (if list_ex (\<lambda>c. is_high_surrogate c \<or> is_low_surrogate c) s
      then Inl (JsError (js ''URIError'') (js ''URI malformed''))
      else Inr s)"

definition lone_surrogate_env :: env where
  "lone_surrogate_env name =
     (if name = js ''GITHUB_OWNER'' then Some [0xD800] else both_env name)"

definition lone_surrogate_rt :: runtime where
  "lone_surrogate_rt = conflict_rt \<lparr> encodeURIComponent := demo_encode \<rparr>"

definition lone_surrogate_job :: append_job where
  "lone_surrogate_job =
     append_job_of lone_surrogate_rt lone_surrogate_env [\<lparr> text_msg = js ''hi'', userId = None \<rparr>] (js ''t'')"


section \<open>Properties\<close>

lemma js_nonempty [simp]: "js (c # cs) \<noteq> []"
  by (simp add: js_def)

lemma demo_hmac_nonempty: "demo_hmac k b \<noteq> []"
  by (simp add: demo_hmac_def)

lemma demo_post_signed:
  "verifyLineSignature (hmac_sha256_base64 demo_rt) (request_text (demo_post b))
     (request_header (demo_post b) (js ''x-line-signature'')) (js ''s'') = Inr True"
  by (simp add: verifyLineSignature_def demo_rt_def demo_post_def timingSafeEqual_def
      demo_hmac_nonempty)

subsection \<open>\<^verbatim>\<open>replaceAll\<close>\<close>

lemma getSubstitution_plain:
  "DOLLAR \<notin> set v \<Longrightarrow> getSubstitution m b a v = v"
  by (induction m b a v rule: getSubstitution.induct) auto

lemma replaceAll_scan_passed:
  "DOLLAR \<notin> set v \<Longrightarrow> replaceAll_scan p v b s = replaceAll_scan p v b' s"
proof (induction "length s" arbitrary: s b b' rule: less_induct)
  case less
  show ?case
  proof (cases "p \<noteq> [] \<and> prefix p s")
    case True
    then have "length (drop (length p) s) < length s"
      by (auto simp: prefix_def)
    from less.hyps [OF this less.prems, of "b @ p" "b' @ p"] True less.prems show ?thesis
      by (simp add: replaceAll_scan.simps [of p v b s] replaceAll_scan.simps [of p v b' s]
          getSubstitution_plain)
  next
    case False
    show ?thesis
    proof (cases s)
      case Nil
      with False show ?thesis
        by (simp add: replaceAll_scan.simps [of p v b "[]"] replaceAll_scan.simps [of p v b' "[]"])
    next
      case (Cons c cs)
      then have "length cs < length s" by simp
      from less.hyps [OF this less.prems, of "b @ [c]" "b' @ [c]"] False Cons show ?thesis
        by (auto simp: replaceAll_scan.simps [of p v b "c # cs"] replaceAll_scan.simps [of p v b' "c # cs"])
    qed
  qed
qed

lemma replaceAll_Nil: "p \<noteq> [] \<Longrightarrow> replaceAll [] p v = []"
  by (simp add: replaceAll_def replaceAll_scan.simps [of p v "[]" "[]"])

lemma replaceAll_match:
  "p \<noteq> [] \<Longrightarrow> DOLLAR \<notin> set v \<Longrightarrow> replaceAll (p @ x) p v = v @ replaceAll x p v"
  using replaceAll_scan_passed [of v p "[] @ p" x "[]"]
  by (simp add: replaceAll_def replaceAll_scan.simps [of p v "[]" "p @ x"] getSubstitution_plain)

lemma replaceAll_skip:
  "p \<noteq> [] \<Longrightarrow> DOLLAR \<notin> set v \<Longrightarrow> \<not> prefix p (c # cs) \<Longrightarrow>
     replaceAll (c # cs) p v = c # replaceAll cs p v"
  using replaceAll_scan_passed [of v p "[c]" cs "[]"]
  by (simp add: replaceAll_def replaceAll_scan.simps [of p v "[]" "c # cs"])

lemma CR_LF_DOLLAR [simp]: "CR \<noteq> LF" "LF \<noteq> CR" "DOLLAR \<noteq> LF" "LF \<noteq> DOLLAR"
  by (simp_all add: CR_def LF_def DOLLAR_def)

lemma crlf_pass_Cons: "c \<noteq> CR \<Longrightarrow> replaceAll (c # s) [CR, LF] [LF] = c # replaceAll s [CR, LF] [LF]"
  by (rule replaceAll_skip) auto

lemma cr_pass_Cons: "c \<noteq> CR \<Longrightarrow> replaceAll (c # s) [CR] [LF] = c # replaceAll s [CR] [LF]"
  by (rule replaceAll_skip) auto

lemma cr_pass_CR: "replaceAll (CR # s) [CR] [LF] = LF # replaceAll s [CR] [LF]"
  using replaceAll_match [of "[CR]" "[LF]" s] by simp

lemma crlf_pass_CRLF: "replaceAll (CR # LF # s) [CR, LF] [LF] = LF # replaceAll s [CR, LF] [LF]"
  using replaceAll_match [of "[CR, LF]" "[LF]" s] by simp

lemma crlf_pass_CR: "\<not> prefix [LF] s \<Longrightarrow> replaceAll (CR # s) [CR, LF] [LF] = CR # replaceAll s [CR, LF] [LF]"
  by (rule replaceAll_skip) auto

lemma newlines_normalized:
  "replaceAll (replaceAll s [CR, LF] [LF]) [CR] [LF] = normalize_newlines s"
proof (induction s rule: normalize_newlines.induct)
  case 1
  show ?case by (simp add: replaceAll_Nil)
next
  case (2 c)
  show ?case
    by (cases "c = CR") (simp_all add: crlf_pass_CR crlf_pass_Cons cr_pass_CR cr_pass_Cons replaceAll_Nil)
next
  case (3 c d r)
  then show ?case
    by (cases "c = CR"; cases "d = LF")
       (simp_all add: crlf_pass_CRLF crlf_pass_CR crlf_pass_Cons cr_pass_CR cr_pass_Cons)
qed


subsection \<open>The rendered block\<close>

lemma normalize_newlines_last:
  "s \<noteq> [] \<Longrightarrow> normalize_newlines s \<noteq> []
     \<and> last (normalize_newlines s) = (if last s = CR then LF else last s)"
  by (induction s rule: normalize_newlines.induct) auto

lemma normalize_newlines_no_CR: "CR \<notin> set (normalize_newlines s)"
  by (induction s rule: normalize_newlines.induct) auto

lemma join_ends_with_last: "xs \<noteq> [] \<Longrightarrow> \<exists>pre. join xs sep = pre @ last xs"
  by (induction xs sep rule: join.induct) auto

lemma render_line_normalized:
  "render_line t m = js ''- '' @ HH t @ js '':'' @ MM t @ js '' '' @ normalize_newlines (text_msg m)"
  by (simp add: render_line_def newlines_normalized)

lemma endsWith_single [simp]: "endsWith s [c] \<longleftrightarrow> s \<noteq> [] \<and> last s = c"
  by (cases s rule: rev_cases) (auto simp: endsWith_def)

lemma render_line_last:
  assumes "\<not> endsWith (text_msg m) [CR]" and "\<not> endsWith (text_msg m) [LF]"
  shows "render_line t m \<noteq> [] \<and> last (render_line t m) \<noteq> LF"
proof (cases "text_msg m = []")
  case True
  then show ?thesis
    by (simp add: render_line_normalized js_def LF_def)
next
  case False
  with assms normalize_newlines_last [OF False] show ?thesis
    by (auto simp: render_line_normalized js_def)
qed

lemma endsWith_two_snoc: "endsWith (s @ [c]) [a, b] \<longleftrightarrow> b = c \<and> endsWith s [a]"
  using snoc_suffix_snoc [of "[a]" b s c] by (simp add: endsWith_def)

lemma single_trailing_newline_snoc:
  "s \<noteq> [] \<Longrightarrow> last s \<noteq> LF \<Longrightarrow> single_trailing_newline (s @ [LF])"
  by (simp add: single_trailing_newline_def endsWith_two_snoc)

lemma render_entry_single:
  assumes "ms \<noteq> []" and "\<not> endsWith (text_msg (last ms)) [CR]" and "\<not> endsWith (text_msg (last ms)) [LF]"
  shows "single_trailing_newline (render_entry t ms)"
proof -
  from assms(1) have ne: "map (render_line t) ms \<noteq> []" by simp
  from join_ends_with_last [OF ne, of "[LF]"] obtain pre
    where j: "join (map (render_line t) ms) [LF] = pre @ render_line t (last ms)"
    using assms(1) by (auto simp: last_map)
  from render_line_last [OF assms(2,3), of t]
  have "pre @ render_line t (last ms) \<noteq> []" and "last (pre @ render_line t (last ms)) \<noteq> LF"
    by auto
  then show ?thesis
    unfolding render_entry_def j by (rule single_trailing_newline_snoc)
qed

text \<open>
  C7, as amended. Each message is rendered as \<^verbatim>\<open>- HH:MM <text>\<close> with CR LF and
  lone CR in the text normalized to LF; the block is these lines joined with
  LF, and one LF behind them. It ends with a single trailing newline when the
  text of the last message does not itself end in CR or LF. Messages
  \<^verbatim>\<open>hello\<close> and \<^verbatim>\<open>world\<close> at 14:03 give \<^verbatim>\<open>- 14:03 hello\n- 14:03 world\n\<close>.
\<close>

theorem render_entry_block:
  "render_entry t ms =
     join (map (\<lambda>m. js ''- '' @ HH t @ js '':'' @ MM t @ js '' '' @ normalize_newlines (text_msg m)) ms) [LF]
     @ [LF]
   \<and> (\<forall>m \<in> set ms. CR \<notin> set (normalize_newlines (text_msg m)))
   \<and> (ms \<noteq> [] \<and> \<not> endsWith (text_msg (last ms)) [CR] \<and> \<not> endsWith (text_msg (last ms)) [LF]
        \<longrightarrow> single_trailing_newline (render_entry t ms))
   \<and> (HH t = js ''14'' \<and> MM t = js ''03'' \<and> map text_msg ms = [js ''hello'', js ''world'']
        \<longrightarrow> render_entry t ms = js ''- 14:03 hello'' @ [LF] @ js ''- 14:03 world'' @ [LF])
   \<and> normalize_newlines (js ''line1'' @ [CR, LF] @ js ''line2'') = js ''line1'' @ [LF] @ js ''line2''"
proof (intro conjI)
  show "render_entry t ms =
     join (map (\<lambda>m. js ''- '' @ HH t @ js '':'' @ MM t @ js '' '' @ normalize_newlines (text_msg m)) ms) [LF]
     @ [LF]"
    by (simp add: render_entry_def render_line_normalized [abs_def])
  show "\<forall>m \<in> set ms. CR \<notin> set (normalize_newlines (text_msg m))"
    by (simp add: normalize_newlines_no_CR)
  show "ms \<noteq> [] \<and> \<not> endsWith (text_msg (last ms)) [CR] \<and> \<not> endsWith (text_msg (last ms)) [LF]
        \<longrightarrow> single_trailing_newline (render_entry t ms)"
    using render_entry_single by blast
  show "HH t = js ''14'' \<and> MM t = js ''03'' \<and> map text_msg ms = [js ''hello'', js ''world'']
        \<longrightarrow> render_entry t ms = js ''- 14:03 hello'' @ [LF] @ js ''- 14:03 world'' @ [LF]"
  proof
    assume a: "HH t = js ''14'' \<and> MM t = js ''03'' \<and> map text_msg ms = [js ''hello'', js ''world'']"
    then obtain m1 m2 where ms: "ms = [m1, m2]" "text_msg m1 = js ''hello''" "text_msg m2 = js ''world''"
      by (auto simp: map_eq_Cons_conv)
    have n1: "normalize_newlines (js ''hello'') = js ''hello''"
      by (simp add: js_def CR_def)
    have n2: "normalize_newlines (js ''world'') = js ''world''"
      by (simp add: js_def CR_def)
    from a ms n1 n2 show "render_entry t ms = js ''- 14:03 hello'' @ [LF] @ js ''- 14:03 world'' @ [LF]"
      by (simp add: render_entry_def render_line_normalized js_def)
  qed
  show "normalize_newlines (js ''line1'' @ [CR, LF] @ js ''line2'') = js ''line1'' @ [LF] @ js ''line2''"
    by (simp add: js_def CR_def LF_def)
qed

text \<open>
  C7 as stated fails: a text that ends in a line break passes the extraction
  as it is, and its block ends with two newlines.
\<close>

theorem render_entry_block_counterexample:
  "textMessages (JObj [(js ''events'', JArr [text_event (js ''hello'' @ [LF])])])
     = Inr [\<lparr> text_msg = js ''hello'' @ [LF], userId = None \<rparr>]
   \<and> render_entry demo_time [\<lparr> text_msg = js ''hello'' @ [LF], userId = None \<rparr>]
       = js ''- 14:03 hello'' @ [LF, LF]
   \<and> \<not> single_trailing_newline (render_entry demo_time [\<lparr> text_msg = js ''hello'' @ [LF], userId = None \<rparr>])"
  by code_simp

theorem render_entry_block_witness:
  "HH demo_time = js ''14'' \<and> MM demo_time = js ''03''
   \<and> map text_msg [\<lparr> text_msg = js ''hello'', userId = None \<rparr>, \<lparr> text_msg = js ''world'', userId = None \<rparr>]
       = [js ''hello'', js ''world'']
   \<and> \<not> endsWith (js ''world'') [CR] \<and> \<not> endsWith (js ''world'') [LF]
   \<and> render_entry demo_time [\<lparr> text_msg = js ''hello'', userId = None \<rparr>, \<lparr> text_msg = js ''world'', userId = None \<rparr>]
       = js ''- 14:03 hello'' @ [LF] @ js ''- 14:03 world'' @ [LF]
   \<and> single_trailing_newline
        (render_entry demo_time [\<lparr> text_msg = js ''hello'', userId = None \<rparr>, \<lparr> text_msg = js ''world'', userId = None \<rparr>])"
proof -
  have h: "HH demo_time = js ''14''" "MM demo_time = js ''03''"
    by (simp_all add: demo_time_def formatTokyoParts_def)
  have e: "\<not> endsWith (js ''world'') [CR]" "\<not> endsWith (js ''world'') [LF]"
    by (simp_all add: js_def CR_def LF_def)
  note block = render_entry_block [of demo_time
        "[\<lparr> text_msg = js ''hello'', userId = None \<rparr>, \<lparr> text_msg = js ''world'', userId = None \<rparr>]"]
  from block [THEN conjunct2, THEN conjunct2, THEN conjunct2, THEN conjunct1] h
  have r: "render_entry demo_time
        [\<lparr> text_msg = js ''hello'', userId = None \<rparr>, \<lparr> text_msg = js ''world'', userId = None \<rparr>]
       = js ''- 14:03 hello'' @ [LF] @ js ''- 14:03 world'' @ [LF]"
    by simp
  from block [THEN conjunct2, THEN conjunct2, THEN conjunct1] e
  have s: "single_trailing_newline (render_entry demo_time
        [\<lparr> text_msg = js ''hello'', userId = None \<rparr>, \<lparr> text_msg = js ''world'', userId = None \<rparr>])"
    by simp
  from h e r s show ?thesis by simp
qed


subsection \<open>Path resolution\<close>

lemma placeholder_iff:
  "placeholder p \<longleftrightarrow> (\<exists>w. p = LBRACE # w \<and> set w \<subseteq> set (js ''}ymdate''))"
  by (cases p) (auto simp: placeholder_def list_all_iff)

lemma placeholders [simp]:
  "placeholder (js ''{yyyy}'')" "placeholder (js ''{yy}'')" "placeholder (js ''{mm}'')"
  "placeholder (js ''{dd}'')" "placeholder (js ''{date}'')"
  by (simp_all add: placeholder_iff js_def LBRACE_def)

lemma plain_value_D:
  assumes "plain_value v"
  shows "v \<noteq> []" "DOLLAR \<notin> set v" "LBRACE \<notin> set v" "\<And>c. c \<in> set (js ''}ymdate'') \<Longrightarrow> c \<notin> set v"
  using assms by (auto simp: plain_value_def list_all_iff js_def DOLLAR_def LBRACE_def)

lemma placeholder_D:
  assumes "placeholder p"
  shows "p \<noteq> []" "hd p = LBRACE" "LBRACE \<notin> set (tl p)" "set (tl p) \<subseteq> set (js ''}ymdate'')"
  using assms by (auto simp: placeholder_iff js_def LBRACE_def)

lemma placeholder_not_prefix: "placeholder p \<Longrightarrow> c \<noteq> LBRACE \<Longrightarrow> \<not> prefix p (c # cs)"
  by (auto simp: placeholder_iff)

text \<open>A pass over text without an opening brace changes nothing.\<close>

lemma replaceAll_pass_over:
  assumes "placeholder p" "DOLLAR \<notin> set v" "LBRACE \<notin> set u"
  shows "replaceAll (u @ x) p v = u @ replaceAll x p v"
  using assms(3)
proof (induction u)
  case Nil
  show ?case by simp
next
  case (Cons c u)
  then have "\<not> prefix p (c # u @ x)"
    using placeholder_not_prefix [OF assms(1), of c "u @ x"] by auto
  with Cons assms show ?case
    by (simp add: replaceAll_skip placeholder_D(1))
qed

lemma replaceAll_pass_value:
  "placeholder p \<Longrightarrow> DOLLAR \<notin> set v \<Longrightarrow> plain_value u \<Longrightarrow> replaceAll (u @ x) p v = u @ replaceAll x p v"
  by (rule replaceAll_pass_over) (auto dest: plain_value_D)

lemma replaceAll_pass_placeholder:
  assumes "placeholder p" "placeholder q" "DOLLAR \<notin> set v" "\<not> prefix p q" "\<not> prefix q p"
  shows "replaceAll (q @ x) p v = q @ replaceAll x p v"
proof -
  from assms(2) obtain w where q: "q = LBRACE # w" and w: "set w \<subseteq> set (js ''}ymdate'')"
    by (auto simp: placeholder_iff)
  from w have nb: "LBRACE \<notin> set w"
    by (auto simp: js_def LBRACE_def)
  from assms(4,5) have "\<not> prefix p (q @ x)"
    by (auto simp: prefix_append)
  then have "replaceAll (q @ x) p v = LBRACE # replaceAll (w @ x) p v"
    using assms(1,3) by (simp add: q replaceAll_skip placeholder_D(1))
  also have "replaceAll (w @ x) p v = w @ replaceAll x p v"
    using assms(1,3) nb by (rule replaceAll_pass_over)
  finally show ?thesis by (simp add: q)
qed

text \<open>A pass does not create or destroy the tail of a placeholder at the front.\<close>

lemma prefix_replaceAll_tail:
  assumes "placeholder p" "plain_value v" "set w \<subseteq> set (js ''}ymdate'')"
  shows "prefix w (replaceAll cs p v) \<longleftrightarrow> prefix w cs"
  using assms(3)
proof (induction w arbitrary: cs)
  case Nil
  show ?case by simp
next
  case (Cons a w)
  from Cons.prems have a: "a \<in> set (js ''}ymdate'')" and w: "set w \<subseteq> set (js ''}ymdate'')"
    by auto
  from a have aL: "a \<noteq> LBRACE" by (auto simp: js_def LBRACE_def)
  note pv = plain_value_D [OF assms(2)]
  note pp = placeholder_D [OF assms(1)]
  show ?case
  proof (cases cs)
    case Nil
    then show ?thesis by (simp add: replaceAll_Nil pp(1))
  next
    case (Cons c cs')
    show ?thesis
    proof (cases "prefix p cs")
      case True
      then obtain r where r: "cs = p @ r" by (auto simp: prefix_def)
      with pp have c: "c = LBRACE" using Cons by (cases p) auto
      from pv(1) obtain v0 v' where v: "v = v0 # v'" by (cases v) auto
      with pv(4) [OF a] have "a \<noteq> v0" by auto
      moreover have "replaceAll cs p v = v @ replaceAll r p v"
        unfolding r using pp(1) pv(2) by (rule replaceAll_match)
      ultimately have "\<not> prefix (a # w) (replaceAll cs p v)"
        by (simp add: v)
      moreover have "\<not> prefix (a # w) cs"
        using aL c Cons by simp
      ultimately show ?thesis by simp
    next
      case False
      then show ?thesis
        using Cons Cons.IH [OF w, of cs'] pv(2) pp(1) by (simp add: replaceAll_skip)
    qed
  qed
qed

lemma prefix_placeholder_replaceAll:
  assumes "placeholder p" "placeholder q" "plain_value v"
  shows "prefix q (c # replaceAll cs p v) \<longleftrightarrow> prefix q (c # cs)"
proof -
  from assms(2) obtain w where q: "q = LBRACE # w" and w: "set w \<subseteq> set (js ''}ymdate'')"
    by (auto simp: placeholder_iff)
  show ?thesis
    by (simp add: q prefix_replaceAll_tail [OF assms(1,3) w])
qed


lemma placeholders_apart:
  "\<not> prefix (js ''{yyyy}'') (js ''{yy}'')" "\<not> prefix (js ''{yyyy}'') (js ''{mm}'')"
  "\<not> prefix (js ''{yyyy}'') (js ''{dd}'')" "\<not> prefix (js ''{yyyy}'') (js ''{date}'')"
  "\<not> prefix (js ''{yy}'') (js ''{yyyy}'')" "\<not> prefix (js ''{yy}'') (js ''{mm}'')"
  "\<not> prefix (js ''{yy}'') (js ''{dd}'')" "\<not> prefix (js ''{yy}'') (js ''{date}'')"
  "\<not> prefix (js ''{mm}'') (js ''{yyyy}'')" "\<not> prefix (js ''{mm}'') (js ''{yy}'')"
  "\<not> prefix (js ''{mm}'') (js ''{dd}'')" "\<not> prefix (js ''{mm}'') (js ''{date}'')"
  "\<not> prefix (js ''{dd}'') (js ''{yyyy}'')" "\<not> prefix (js ''{dd}'') (js ''{yy}'')"
  "\<not> prefix (js ''{dd}'') (js ''{mm}'')" "\<not> prefix (js ''{dd}'') (js ''{date}'')"
  "\<not> prefix (js ''{date}'') (js ''{yyyy}'')" "\<not> prefix (js ''{date}'') (js ''{yy}'')"
  "\<not> prefix (js ''{date}'') (js ''{mm}'')" "\<not> prefix (js ''{date}'') (js ''{dd}'')"
  by (simp_all add: js_def)

lemma buildNotePath_Nil: "buildNotePath [] t = []"
  by (simp add: buildNotePath_def replaceAll_Nil)

lemma buildNotePath_skip:
  assumes "plain_parts t"
    and "\<not> prefix (js ''{yyyy}'') (c # cs)" "\<not> prefix (js ''{yy}'') (c # cs)"
    and "\<not> prefix (js ''{mm}'') (c # cs)" "\<not> prefix (js ''{dd}'') (c # cs)"
    and "\<not> prefix (js ''{date}'') (c # cs)"
  shows "buildNotePath (c # cs) t = c # buildNotePath cs t"
proof -
  from assms(1) have pv: "plain_value (yyyy t)" "plain_value (yy t)" "plain_value (mm t)"
    "plain_value (dd t)" "plain_value (date t)"
    by (simp_all add: plain_parts_def)
  note nd = pv [THEN plain_value_D(2)]
  show ?thesis
    unfolding buildNotePath_def
    using assms(2-) pv nd
    by (simp add: replaceAll_skip prefix_placeholder_replaceAll)
qed

lemma buildNotePath_placeholder:
  assumes "plain_parts t"
  shows "buildNotePath (js ''{yyyy}'' @ x) t = yyyy t @ buildNotePath x t"
    and "buildNotePath (js ''{yy}'' @ x) t = yy t @ buildNotePath x t"
    and "buildNotePath (js ''{mm}'' @ x) t = mm t @ buildNotePath x t"
    and "buildNotePath (js ''{dd}'' @ x) t = dd t @ buildNotePath x t"
    and "buildNotePath (js ''{date}'' @ x) t = date t @ buildNotePath x t"
proof -
  from assms(1) have pv: "plain_value (yyyy t)" "plain_value (yy t)" "plain_value (mm t)"
    "plain_value (dd t)" "plain_value (date t)"
    by (simp_all add: plain_parts_def)
  note nd = pv [THEN plain_value_D(2)]
  note rules = replaceAll_match replaceAll_pass_value replaceAll_pass_placeholder placeholders_apart
  show "buildNotePath (js ''{yyyy}'' @ x) t = yyyy t @ buildNotePath x t"
    unfolding buildNotePath_def using pv nd by (simp add: rules)
  show "buildNotePath (js ''{yy}'' @ x) t = yy t @ buildNotePath x t"
    unfolding buildNotePath_def using pv nd by (simp add: rules)
  show "buildNotePath (js ''{mm}'' @ x) t = mm t @ buildNotePath x t"
    unfolding buildNotePath_def using pv nd by (simp add: rules)
  show "buildNotePath (js ''{dd}'' @ x) t = dd t @ buildNotePath x t"
    unfolding buildNotePath_def using pv nd by (simp add: rules)
  show "buildNotePath (js ''{date}'' @ x) t = date t @ buildNotePath x t"
    unfolding buildNotePath_def using pv nd by (simp add: rules)
qed

lemma buildNotePath_resolve_spec:
  assumes "plain_parts t"
  shows "buildNotePath s t = resolve_spec t s"
  using assms
proof (induction t s rule: resolve_spec.induct)
  case (1 t s)
  show ?case
  proof (cases "prefix (js ''{yyyy}'') s")
    case True
    then obtain x where x: "s = js ''{yyyy}'' @ x"
      by (auto simp: prefix_def)
    have "resolve_spec t s = yyyy t @ resolve_spec t (drop (length (js ''{yyyy}'')) s)"
      using True  by (subst resolve_spec.simps) simp
    also have "drop (length (js ''{yyyy}'')) s = x"
      by (simp add: x)
    also have "resolve_spec t x = buildNotePath x t"
      using "1.IH"(1) [OF  True "1.prems"] x by simp
    finally show ?thesis
      using "1.prems" by (simp add: x buildNotePath_placeholder)
  next
    case n1: False
    show ?thesis
    proof (cases "prefix (js ''{yy}'') s")
      case True
      then obtain x where x: "s = js ''{yy}'' @ x"
        by (auto simp: prefix_def)
      have "resolve_spec t s = yy t @ resolve_spec t (drop (length (js ''{yy}'')) s)"
        using True n1 by (subst resolve_spec.simps) simp
      also have "drop (length (js ''{yy}'')) s = x"
        by (simp add: x)
      also have "resolve_spec t x = buildNotePath x t"
        using "1.IH"(2) [OF n1 True "1.prems"] x by simp
      finally show ?thesis
        using "1.prems" by (simp add: x buildNotePath_placeholder)
    next
      case n2: False
      show ?thesis
      proof (cases "prefix (js ''{mm}'') s")
        case True
        then obtain x where x: "s = js ''{mm}'' @ x"
          by (auto simp: prefix_def)
        have "resolve_spec t s = mm t @ resolve_spec t (drop (length (js ''{mm}'')) s)"
          using True n1 n2 by (subst resolve_spec.simps) simp
        also have "drop (length (js ''{mm}'')) s = x"
          by (simp add: x)
        also have "resolve_spec t x = buildNotePath x t"
          using "1.IH"(3) [OF n1 n2 True "1.prems"] x by simp
        finally show ?thesis
          using "1.prems" by (simp add: x buildNotePath_placeholder)
      next
        case n3: False
        show ?thesis
        proof (cases "prefix (js ''{dd}'') s")
          case True
          then obtain x where x: "s = js ''{dd}'' @ x"
            by (auto simp: prefix_def)
          have "resolve_spec t s = dd t @ resolve_spec t (drop (length (js ''{dd}'')) s)"
            using True n1 n2 n3 by (subst resolve_spec.simps) simp
          also have "drop (length (js ''{dd}'')) s = x"
            by (simp add: x)
          also have "resolve_spec t x = buildNotePath x t"
            using "1.IH"(4) [OF n1 n2 n3 True "1.prems"] x by simp
          finally show ?thesis
            using "1.prems" by (simp add: x buildNotePath_placeholder)
        next
          case n4: False
          show ?thesis
          proof (cases "prefix (js ''{date}'') s")
            case True
            then obtain x where x: "s = js ''{date}'' @ x"
              by (auto simp: prefix_def)
            have "resolve_spec t s = date t @ resolve_spec t (drop (length (js ''{date}'')) s)"
              using True n1 n2 n3 n4 by (subst resolve_spec.simps) simp
            also have "drop (length (js ''{date}'')) s = x"
              by (simp add: x)
            also have "resolve_spec t x = buildNotePath x t"
              using "1.IH"(5) [OF n1 n2 n3 n4 True "1.prems"] x by simp
            finally show ?thesis
              using "1.prems" by (simp add: x buildNotePath_placeholder)
          next
            case n5: False
            show ?thesis
            proof (cases s)
              case Nil
              then show ?thesis
                by (subst resolve_spec.simps) (simp add: buildNotePath_Nil js_def)
            next
              case (Cons c cs)
              have "resolve_spec t s = c # resolve_spec t cs"
                using n1 n2 n3 n4 n5 Cons by (subst resolve_spec.simps) simp
              also have "resolve_spec t cs = buildNotePath cs t"
                using "1.IH"(6) [OF n1 n2 n3 n4 n5 Cons "1.prems"] by simp
              finally show ?thesis
                using n1 n2 n3 n4 n5 "1.prems" by (simp add: Cons buildNotePath_skip)
            qed
          qed
        qed
      qed
    qed
  qed
qed


lemma digit_plain: "(0x30::jschar) \<le> c \<Longrightarrow> c \<le> 0x39 \<Longrightarrow> c \<notin> set (js ''${}ymdate'')"
  by (auto simp: js_def)

lemma digits_plain_value:
  "f \<noteq> [] \<Longrightarrow> list_all (\<lambda>c. 0x30 \<le> c \<and> c \<le> 0x39) f \<Longrightarrow> plain_value f"
  by (auto simp: plain_value_def list_all_iff dest: digit_plain)

lemma plain_value_append: "plain_value a \<Longrightarrow> plain_value b \<Longrightarrow> plain_value (a @ b)"
  by (simp add: plain_value_def)

lemma plain_value_drop: "plain_value a \<Longrightarrow> n < length a \<Longrightarrow> plain_value (drop n a)"
  by (auto simp: plain_value_def list_all_iff dest: in_set_dropD)

lemma plain_value_dash: "plain_value (js ''-'')"
  by (simp add: plain_value_def js_def)

lemma decimal_parts_plain:
  assumes "decimal_parts parts"
  shows "plain_parts (formatTokyoParts parts)"
proof -
  from assms have y: "plain_value (year parts)" and m: "plain_value (month parts)"
    and d: "plain_value (day parts)"
    by (simp_all add: decimal_parts_def decimal_string_def digits_plain_value)
  from y have "year parts \<noteq> []" by (simp add: plain_value_def)
  then have "length (year parts) - 2 < length (year parts)"
    by (cases "year parts") auto
  with y have "plain_value (slice_last2 (year parts))"
    unfolding slice_last2_def by (rule plain_value_drop)
  with y m d show ?thesis
    by (simp add: plain_parts_def formatTokyoParts_def plain_value_append plain_value_dash)
qed

text \<open>
  C9. With time parts of decimal digits (any fields that are not empty and have
  no dollar sign and none of the placeholders' characters will do),
  \<^verbatim>\<open>buildNotePath\<close> is the one-pass resolution: every occurrence of
  \<^verbatim>\<open>{yyyy} {yy} {mm} {dd} {date}\<close> becomes its field, everything else, any other
  \<^verbatim>\<open>{...}\<close> included, stays. \<^verbatim>\<open>{yyyy}/{mm}/{dd}.md\<close> gives \<^verbatim>\<open>2026/01/02.md\<close>
  and \<^verbatim>\<open>{date}.md\<close> gives \<^verbatim>\<open>2026-01-02.md\<close>.
\<close>

theorem path_resolution:
  "(plain_parts t \<longrightarrow> buildNotePath template t = resolve_spec t template)
   \<and> (decimal_parts parts \<longrightarrow> plain_parts (formatTokyoParts parts))
   \<and> (yyyy t = js ''2026'' \<and> mm t = js ''01'' \<and> dd t = js ''02'' \<longrightarrow>
        buildNotePath (js ''{yyyy}/{mm}/{dd}.md'') t = js ''2026/01/02.md'')
   \<and> (date t = js ''2026-01-02'' \<longrightarrow> buildNotePath (js ''{date}.md'') t = js ''2026-01-02.md'')"
proof (intro conjI impI)
  assume "plain_parts t"
  then show "buildNotePath template t = resolve_spec t template"
    by (rule buildNotePath_resolve_spec)
next
  assume "decimal_parts parts"
  then show "plain_parts (formatTokyoParts parts)"
    by (rule decimal_parts_plain)
next
  assume "yyyy t = js ''2026'' \<and> mm t = js ''01'' \<and> dd t = js ''02''"
  then show "buildNotePath (js ''{yyyy}/{mm}/{dd}.md'') t = js ''2026/01/02.md''"
    by (simp add: buildNotePath_def replaceAll_def replaceAll_scan.simps js_def DOLLAR_def)
next
  assume "date t = js ''2026-01-02''"
  then show "buildNotePath (js ''{date}.md'') t = js ''2026-01-02.md''"
    by (simp add: buildNotePath_def replaceAll_def replaceAll_scan.simps js_def DOLLAR_def)
qed

theorem path_resolution_witness:
  "decimal_parts \<lparr> year = js ''2026'', month = js ''01'', day = js ''02'',
               hour = js ''14'', minute = js ''03'', second = js ''59'' \<rparr>
   \<and> plain_parts demo_time
   \<and> yyyy demo_time = js ''2026'' \<and> mm demo_time = js ''01'' \<and> dd demo_time = js ''02''
   \<and> date demo_time = js ''2026-01-02''
   \<and> buildNotePath (js ''{yy}/{foo}/{date}{date}.md'') demo_time = js ''26/{foo}/2026-01-022026-01-02.md''
   \<and> resolve_spec demo_time (js ''{yy}/{foo}/{date}{date}.md'') = js ''26/{foo}/2026-01-022026-01-02.md''
   \<and> buildNotePath (js ''{yyyy}/{mm}/{dd}.md'') demo_time = js ''2026/01/02.md''
   \<and> buildNotePath (js ''{date}.md'') demo_time = js ''2026-01-02.md''"
proof -
  have d: "decimal_parts \<lparr> year = js ''2026'', month = js ''01'', day = js ''02'',
               hour = js ''14'', minute = js ''03'', second = js ''59'' \<rparr>"
    by (simp add: decimal_parts_def decimal_string_def js_def)
  note res = path_resolution [of demo_time "js ''{yy}/{foo}/{date}{date}.md''"
      "\<lparr> year = js ''2026'', month = js ''01'', day = js ''02'',
               hour = js ''14'', minute = js ''03'', second = js ''59'' \<rparr>"]
  from res [THEN conjunct2, THEN conjunct1] d have p: "plain_parts demo_time"
    by (simp add: demo_time_def)
  have f: "yyyy demo_time = js ''2026''" "mm demo_time = js ''01''" "dd demo_time = js ''02''"
    "date demo_time = js ''2026-01-02''"
    by (simp_all add: demo_time_def formatTokyoParts_def js_def)
  have r: "resolve_spec demo_time (js ''{yy}/{foo}/{date}{date}.md'') = js ''26/{foo}/2026-01-022026-01-02.md''"
    by code_simp
  from res [THEN conjunct1] p r
  have b: "buildNotePath (js ''{yy}/{foo}/{date}{date}.md'') demo_time = js ''26/{foo}/2026-01-022026-01-02.md''"
    by simp
  from res [THEN conjunct2, THEN conjunct2, THEN conjunct1] f
  have e1: "buildNotePath (js ''{yyyy}/{mm}/{dd}.md'') demo_time = js ''2026/01/02.md''"
    by simp
  from res [THEN conjunct2, THEN conjunct2, THEN conjunct2] f
  have e2: "buildNotePath (js ''{date}.md'') demo_time = js ''2026-01-02.md''"
    by simp
  from d p f b r e1 e2 show ?thesis by simp
qed


subsection \<open>Signature verification\<close>

lemma base64_char_ascii: "is_base64_char c \<Longrightarrow> c < 0x80"
  by (auto simp: is_base64_char_def word_less_nat_alt word_le_nat_alt)

lemma byte_of_nat_less: "k < 256 \<Longrightarrow> (of_nat k :: byte) < 0x80 \<longleftrightarrow> k < 128"
  by (simp add: word_less_nat_alt unat_of_nat)

lemma utf8_bytes_ascii: "n < 0x80 \<Longrightarrow> utf8_bytes n = [of_nat n]"
  by (simp add: utf8_bytes_def)

lemma utf8_bytes_high:
  assumes "0x80 \<le> n" "n < 0x400000"
  shows "\<exists>b \<in> set (utf8_bytes n). \<not> b < 0x80"
proof -
  have "\<not> (of_nat (0xC0 + n div 64) :: byte) < 0x80" if "n < 0x800"
    using that by (subst byte_of_nat_less) auto
  moreover have "\<not> (of_nat (0xE0 + n div 4096) :: byte) < 0x80" if "n < 0x10000"
    using that by (subst byte_of_nat_less) auto
  moreover have "\<not> (of_nat (0xF0 + n div 262144) :: byte) < 0x80"
    using assms(2) by (subst byte_of_nat_less) auto
  ultimately show ?thesis
    using assms(1) by (auto simp: utf8_bytes_def)
qed

lemma surrogate_not_ascii:
  "is_high_surrogate c \<or> is_low_surrogate c \<Longrightarrow> \<not> c < 0x80"
  by (auto simp: is_high_surrogate_def is_low_surrogate_def word_less_nat_alt word_le_nat_alt)

lemma unat_jschar_less: "unat (c :: jschar) < 0x400000"
  using unsigned_less [of c, where 'a = nat] by simp

lemma pair_code_point_bounds:
  "0x80 \<le> 0x10000 + (unat (c :: jschar) - 0xD800) * 1024 + (unat (d :: jschar) - 0xDC00)"
  "is_high_surrogate c \<Longrightarrow> 0x10000 + (unat c - 0xD800) * 1024 + (unat (d :: jschar) - 0xDC00) < 0x400000"
proof -
  show "0x80 \<le> 0x10000 + (unat c - 0xD800) * 1024 + (unat d - 0xDC00)" by simp
  assume "is_high_surrogate c"
  then have "unat c \<le> 0xDBFF"
    by (simp add: is_high_surrogate_def word_le_nat_alt)
  moreover have "unat d < 65536" using unsigned_less [of d, where 'a = nat] by simp
  ultimately show "0x10000 + (unat c - 0xD800) * 1024 + (unat d - 0xDC00) < 0x400000"
    by simp
qed

lemma utf8_encode_Cons_cases:
  "utf8_encode (c # s) =
     (if is_high_surrogate c \<and> s \<noteq> [] \<and> is_low_surrogate (hd s)
      then utf8_bytes (0x10000 + (unat c - 0xD800) * 1024 + (unat (hd s) - 0xDC00)) @ utf8_encode (tl s)
      else if is_high_surrogate c \<or> is_low_surrogate c then [0xEF, 0xBF, 0xBD] @ utf8_encode s
      else utf8_bytes (unat c) @ utf8_encode s)"
  by (cases s) simp_all

lemma utf8_encode_ascii_Cons: "c < 0x80 \<Longrightarrow> utf8_encode (c # s) = ucast c # utf8_encode s"
  using surrogate_not_ascii [of c]
  by (simp only: utf8_encode_Cons_cases) (auto simp: utf8_bytes_ascii word_less_nat_alt)

lemma utf8_encode_high_Cons:
  assumes "\<not> c < 0x80"
  shows "\<exists>b \<in> set (utf8_encode (c # s)). \<not> b < 0x80"
proof -
  have one: "\<exists>b \<in> set (utf8_bytes (unat c)). \<not> b < 0x80"
    using assms unat_jschar_less [of c] by (intro utf8_bytes_high) (simp_all add: word_less_nat_alt)
  have two: "\<exists>b \<in> set (utf8_bytes (0x10000 + (unat c - 0xD800) * 1024 + (unat (hd s) - 0xDC00))).
      \<not> b < 0x80" if "is_high_surrogate c"
    using pair_code_point_bounds [of c "hd s"] that by (intro utf8_bytes_high) auto
  have three: "\<not> (0xEF :: byte) < 0x80" by simp
  show ?thesis
    unfolding utf8_encode_Cons_cases using one two three
    by (simp only: split: if_split) (auto simp del: utf8_encode.simps)
qed

lemma ascii_bytes_ascii_string:
  "\<forall>b \<in> set (utf8_encode h). b < 0x80 \<Longrightarrow> \<forall>c \<in> set h. c < 0x80"
proof (induction h)
  case Nil
  show ?case by simp
next
  case (Cons c h)
  have c: "c < 0x80"
    using utf8_encode_high_Cons [of c h] Cons.prems by blast
  with Cons.prems have "\<forall>b \<in> set (utf8_encode h). b < 0x80"
    by (simp add: utf8_encode_ascii_Cons del: utf8_encode.simps)
  with Cons.IH c show ?case by simp
qed

lemma utf8_encode_ascii:
  "\<forall>c \<in> set s. c < 0x80 \<Longrightarrow> utf8_encode s = map ucast s"
  by (induction s) (simp_all add: utf8_encode_ascii_Cons del: utf8_encode.simps(2,3))

lemma ascii_byte_unat:
  assumes "(c :: jschar) < 0x80"
  shows "unat (ucast c :: byte) = unat c"
proof -
  from assms have "unat c < 2 ^ 8" by (simp add: word_less_nat_alt)
  then have "take_bit 8 (unat c) = unat c" by (rule take_bit_nat_eq_self)
  then show ?thesis by (simp add: unsigned_ucast_eq)
qed

lemma ascii_byte_less:
  assumes "(c :: jschar) < 0x80"
  shows "(ucast c :: byte) < 0x80"
proof -
  from assms have "unat c < 128" by (simp add: word_less_nat_alt)
  with ascii_byte_unat [OF assms] have "unat (ucast c :: byte) < 128" by simp
  then show ?thesis by (simp add: word_less_nat_alt)
qed

lemma ascii_byte_inj:
  assumes "(c :: jschar) < 0x80" "(d :: jschar) < 0x80" "(ucast c :: byte) = ucast d"
  shows "c = d"
proof -
  from assms(3) have "unat (ucast c :: byte) = unat (ucast d :: byte)" by simp
  with assms(1,2) have "unat c = unat d" by (simp add: ascii_byte_unat)
  then show ?thesis by (simp add: word_unat_eq_iff)
qed

lemma ascii_map_inj:
  "\<forall>c \<in> set s. c < 0x80 \<Longrightarrow> \<forall>c \<in> set s'. c < 0x80 \<Longrightarrow>
     map (ucast :: jschar \<Rightarrow> byte) s = map ucast s' \<Longrightarrow> s = s'"
proof (induction s arbitrary: s')
  case Nil
  then show ?case by simp
next
  case (Cons c s)
  from Cons.prems(3) obtain d t where s': "s' = d # t" by (cases s') auto
  from Cons.prems(3) have hd: "(ucast c :: byte) = ucast d"
    and tl: "map (ucast :: jschar \<Rightarrow> byte) s = map ucast t"
    unfolding s' by simp_all
  from Cons.prems(1) have c: "c < 0x80" and s: "\<forall>c \<in> set s. c < 0x80" by simp_all
  from Cons.prems(2) have d: "d < 0x80" and t: "\<forall>c \<in> set t. c < 0x80"
    unfolding s' by simp_all
  from c d hd have "c = d" by (rule ascii_byte_inj)
  moreover from s t tl have "s = t" by (rule Cons.IH)
  ultimately show ?case unfolding s' by simp
qed

lemma utf8_encode_ascii_inj:
  assumes "\<forall>c \<in> set e. c < 0x80" "utf8_encode h = utf8_encode e"
  shows "h = e"
proof -
  from assms(1) have "\<forall>b \<in> set (map (ucast :: jschar \<Rightarrow> byte) e). b < 0x80"
    by (auto intro: ascii_byte_less)
  with assms have "\<forall>b \<in> set (utf8_encode h). b < 0x80"
    by (simp only: utf8_encode_ascii)
  then have h: "\<forall>c \<in> set h. c < 0x80"
    by (rule ascii_bytes_ascii_string)
  from assms(2) have "map (ucast :: jschar \<Rightarrow> byte) h = map ucast e"
    by (simp only: utf8_encode_ascii [OF h] utf8_encode_ascii [OF assms(1)])
  with h assms(1) show ?thesis by (rule ascii_map_inj)
qed


lemma base64_text_ascii: "base64_text s \<Longrightarrow> \<forall>c \<in> set s. c < 0x80"
  by (auto simp: base64_text_def list_all_iff intro: base64_char_ascii)

lemma verifyLineSignature_returns: "\<exists>r. verifyLineSignature hmac B H S = Inr r"
  by (auto simp: verifyLineSignature_def timingSafeEqual_def Let_def split: option.splits)

lemma verifyLineSignature_correct:
  assumes "hmac S B \<noteq> []"
  shows "verifyLineSignature hmac B (Some (hmac S B)) S = Inr True"
  using assms by (simp add: verifyLineSignature_def timingSafeEqual_def)

lemma verifyLineSignature_other:
  assumes "base64_text (hmac S B)" and "H \<noteq> Some (hmac S B)"
  shows "verifyLineSignature hmac B H S = Inr False"
proof (cases H)
  case None
  then show ?thesis by (simp add: verifyLineSignature_def)
next
  case (Some h)
  with assms(2) have "h \<noteq> hmac S B" by simp
  then have "utf8_encode (hmac S B) \<noteq> utf8_encode h"
    using utf8_encode_ascii_inj [OF base64_text_ascii [OF assms(1)], of h] by auto
  with Some show ?thesis
    by (simp add: verifyLineSignature_def timingSafeEqual_def Let_def)
qed

text \<open>
  C2. The base64 digest of the body under the secret is accepted; any other
  header value, an absent header and one of another length included, is
  refused; and the verifier returns, whatever its inputs.
\<close>

theorem signature_verification:
  "(base64_text (hmac S B) \<longrightarrow>
      verifyLineSignature hmac B (Some (hmac S B)) S = Inr True
      \<and> (\<forall>H. H \<noteq> Some (hmac S B) \<longrightarrow> verifyLineSignature hmac B H S = Inr False))
   \<and> (\<exists>r. verifyLineSignature hmac B' H' S' = Inr r)"
  using verifyLineSignature_correct [of hmac S B] verifyLineSignature_other [of hmac S B]
    verifyLineSignature_returns [of hmac B' H' S']
  by (auto simp: base64_text_def)

theorem signature_verification_witness:
  "base64_text (demo_hmac (js ''s'') (js ''{}''))
   \<and> verifyLineSignature demo_hmac (js ''{}'')
         (Some (js ''FDyo1Re6GxgQJdcysc8nXZAQT8pXuwKlZVQpeKoYxLY='')) (js ''s'') = Inr True
   \<and> verifyLineSignature demo_hmac (js ''{}'')
         (Some (js ''FDyo1Re6GxgQJdcysc8nXZAQT8pXuwKlZVQpeKoYxLy='')) (js ''s'') = Inr False
   \<and> verifyLineSignature demo_hmac (js ''{}'') (Some (js ''FDyo'')) (js ''s'') = Inr False
   \<and> verifyLineSignature demo_hmac (js ''{}'') None (js ''s'') = Inr False"
proof -
  have d: "demo_hmac (js ''s'') (js ''{}'') = js ''FDyo1Re6GxgQJdcysc8nXZAQT8pXuwKlZVQpeKoYxLY=''"
    by (simp add: demo_hmac_def)
  have b: "base64_text (demo_hmac (js ''s'') (js ''{}''))"
    unfolding d by (simp add: base64_text_def is_base64_char_def js_def)
  have n: "Some (js ''FDyo1Re6GxgQJdcysc8nXZAQT8pXuwKlZVQpeKoYxLy='') \<noteq> Some (demo_hmac (js ''s'') (js ''{}''))"
    "Some (js ''FDyo'') \<noteq> Some (demo_hmac (js ''s'') (js ''{}''))"
    unfolding d by (simp_all add: js_def)
  note v = signature_verification [of demo_hmac "js ''s''" "js ''{}''" "js ''{}''" None "js ''s''"]
  from v b have t: "verifyLineSignature demo_hmac (js ''{}'') (Some (demo_hmac (js ''s'') (js ''{}''))) (js ''s'')
      = Inr True"
    and f: "\<forall>H. H \<noteq> Some (demo_hmac (js ''s'') (js ''{}''))
          \<longrightarrow> verifyLineSignature demo_hmac (js ''{}'') H (js ''s'') = Inr False"
    by simp_all
  from f n have "verifyLineSignature demo_hmac (js ''{}'')
         (Some (js ''FDyo1Re6GxgQJdcysc8nXZAQT8pXuwKlZVQpeKoYxLy='')) (js ''s'') = Inr False"
    and "verifyLineSignature demo_hmac (js ''{}'') (Some (js ''FDyo'')) (js ''s'') = Inr False"
    and "verifyLineSignature demo_hmac (js ''{}'') None (js ''s'') = Inr False"
    by blast+
  with b t show ?thesis by (simp add: d)
qed


subsection \<open>Event extraction\<close>

lemma dropWhile_all_iff: "(\<forall>x \<in> set (dropWhile P xs). P x) \<longleftrightarrow> dropWhile P xs = []"
proof
  assume a: "\<forall>x \<in> set (dropWhile P xs). P x"
  show "dropWhile P xs = []"
  proof (rule ccontr)
    assume n: "dropWhile P xs \<noteq> []"
    then have "\<not> P (hd (dropWhile P xs))" by (rule hd_dropWhile)
    moreover from n have "hd (dropWhile P xs) \<in> set (dropWhile P xs)" by simp
    ultimately show False using a by blast
  qed
qed (auto dest: set_dropWhileD)

lemma trim_empty_iff: "trim s = [] \<longleftrightarrow> (\<forall>c \<in> set s. is_js_space c)"
  by (simp add: trim_def dropWhile_all_iff)

lemma opt_get_Some:
  "opt_get v k = Some u \<Longrightarrow> \<exists>kvs. v = Some (JObj kvs) \<and> map_of kvs k = Some u"
  by (induction v k rule: opt_get.induct) auto

lemma map_throwing_all2:
  "map_throwing f xs = Inr ys \<Longrightarrow> list_all2 (\<lambda>x y. f x = Inr y) xs ys"
  by (induction xs arbitrary: ys) (auto split: sum.splits)

lemma map_throwing_returns:
  "\<forall>x \<in> set xs. \<exists>y. f x = Inr y \<Longrightarrow> \<exists>ys. map_throwing f xs = Inr ys"
  by (induction xs) (auto split: sum.splits)

lemma dot_get_Inr: "dot_get v k = Inr r \<Longrightarrow> r = opt_get v k"
  by (induction v k rule: dot_get.induct) auto

lemma to_message_text: "to_message e = Inr m \<Longrightarrow> event_text e = Inr (text_msg m)"
  by (auto simp: to_message_def event_text_def split: sum.splits if_splits option.splits
      dest!: dot_get_Inr)

lemma list_all2_filter:
  "list_all2 R xs ys \<Longrightarrow> (\<And>x y. R x y \<Longrightarrow> P x \<longleftrightarrow> Q y) \<Longrightarrow>
     list_all2 R (filter P xs) (filter Q ys)"
  by (induction rule: list_all2_induct) auto

lemma qualifies_alt:
  "qualifies e \<longleftrightarrow>
     is_text_event e \<and> (case event_text e of Inl err \<Rightarrow> False | Inr s \<Rightarrow> trim s \<noteq> [])"
  by (auto simp: qualifies_def is_text_event_def trim_empty_iff list_ex_iff split: sum.splits)

lemma textMessages_kept:
  assumes "textMessages payload = Inr ms"
  shows "list_all2 (\<lambda>e m. event_text e = Inr (text_msg m)) (filter qualifies (events_of payload)) ms"
proof -
  let ?es = "filter is_text_event (events_of payload)"
  from assms obtain ms0 where ms0: "map_throwing to_message ?es = Inr ms0"
    and ms: "ms = filter (\<lambda>m. length (trim (text_msg m)) > 0) ms0"
    by (auto simp: textMessages_def split: sum.splits)
  from ms0 have "list_all2 (\<lambda>e m. to_message e = Inr m) ?es ms0"
    by (rule map_throwing_all2)
  then have "list_all2 (\<lambda>e m. event_text e = Inr (text_msg m)) ?es ms0"
    by (rule list_all2_mono) (rule to_message_text)
  then have "list_all2 (\<lambda>e m. event_text e = Inr (text_msg m))
      (filter (\<lambda>e. case event_text e of Inl err \<Rightarrow> False | Inr s \<Rightarrow> trim s \<noteq> []) ?es)
      (filter (\<lambda>m. length (trim (text_msg m)) > 0) ms0)"
    by (rule list_all2_filter) simp
  moreover have "filter (\<lambda>e. case event_text e of Inl err \<Rightarrow> False | Inr s \<Rightarrow> trim s \<noteq> []) ?es
      = filter qualifies (events_of payload)"
    by (simp add: qualifies_alt [abs_def] conj_commute)
  ultimately show ?thesis by (simp add: ms)
qed

lemma js_String_primitive: "primitive_or_absent (Some v) \<Longrightarrow> \<exists>s. js_String v = Inr s"
  by (cases v) auto

lemma primitive_nullish: "primitive_or_absent v \<Longrightarrow> primitive_or_absent (Some (nullish_empty v))"
  by (induction v rule: nullish_empty.induct) auto

lemma to_message_returns:
  assumes "is_text_event e" "plain_fields e"
  shows "\<exists>m. to_message e = Inr m"
proof -
  from assms(1) obtain kvs where e: "e = JObj kvs"
    by (cases e) (auto simp: is_text_event_def)
  from assms(1) e obtain mkvs where m: "map_of kvs (js ''message'') = Some (JObj mkvs)"
    by (cases "map_of kvs (js ''message'')"; cases "the (map_of kvs (js ''message''))")
       (auto simp: is_text_event_def)
  from assms(2) e m have "primitive_or_absent (map_of mkvs (js ''text''))"
    by (simp add: plain_fields_def)
  then obtain s where s: "js_String (nullish_empty (map_of mkvs (js ''text''))) = Inr s"
    using js_String_primitive primitive_nullish by blast
  show ?thesis
  proof (cases "truthy (opt_get (opt_get (Some e) (js ''source'')) (js ''userId''))")
    case False
    with e m s show ?thesis by (simp add: to_message_def)
  next
    case True
    then obtain u where "opt_get (opt_get (Some e) (js ''source'')) (js ''userId'') = Some u"
      by (cases "opt_get (opt_get (Some e) (js ''source'')) (js ''userId'')") auto
    then obtain skvs where "opt_get (Some e) (js ''source'') = Some (JObj skvs)"
      and u: "map_of skvs (js ''userId'') = Some u"
      by (blast dest: opt_get_Some)
    then have src: "map_of kvs (js ''source'') = Some (JObj skvs)"
      by (simp add: e)
    from assms(2) e src u have "primitive_or_absent (Some u)"
      by (simp add: plain_fields_def)
    then obtain us where "js_String u = Inr us"
      using js_String_primitive by blast
    with True e m s src u show ?thesis by (simp add: to_message_def)
  qed
qed

lemma textMessages_returns:
  assumes "\<forall>e \<in> set (events_of payload). is_text_event e \<longrightarrow> plain_fields e"
  shows "\<exists>ms. textMessages payload = Inr ms"
proof -
  from assms have "\<forall>e \<in> set (filter is_text_event (events_of payload)). \<exists>m. to_message e = Inr m"
    by (auto intro: to_message_returns)
  then obtain ms0 where "map_throwing to_message (filter is_text_event (events_of payload)) = Inr ms0"
    using map_throwing_returns by blast
  then show ?thesis by (simp add: textMessages_def)
qed

text \<open>
  C8, as amended. Whenever the extraction returns, the messages are the texts of
  exactly the qualifying events, in the order of the event list; and it returns
  on every payload whose text events have primitive text and user id.
\<close>

theorem event_extraction:
  "(textMessages payload = Inr ms \<longrightarrow>
      list_all2 (\<lambda>e m. event_text e = Inr (text_msg m)) (filter qualifies (events_of payload)) ms)
   \<and> ((\<forall>e \<in> set (events_of payload). is_text_event e \<longrightarrow> plain_fields e) \<longrightarrow>
        (\<exists>ms'. textMessages payload = Inr ms'))"
  using textMessages_kept textMessages_returns by blast


text \<open>
  C8 as stated fails: a text event that reads \<^verbatim>\<open>first\<close> and whose user id is
  an object with a \<^verbatim>\<open>toString\<close> property qualifies, and the extraction throws
  on it and keeps nothing.
\<close>

theorem event_extraction_counterexample:
  "filter qualifies (events_of object_id_payload) = [object_id_event (js ''first'')]
   \<and> textMessages object_id_payload = Inl (TypeError (js ''Cannot convert object to primitive value''))"
  by code_simp

theorem event_extraction_witness:
  "textMessages demo_payload
     = Inr [\<lparr> text_msg = js ''hello'', userId = None \<rparr>, \<lparr> text_msg = js ''world'', userId = None \<rparr>]
   \<and> filter qualifies (events_of demo_payload) = [text_event (js ''hello''), text_event (js ''world'')]
   \<and> list_all2 (\<lambda>e m. event_text e = Inr (text_msg m)) (filter qualifies (events_of demo_payload))
        [\<lparr> text_msg = js ''hello'', userId = None \<rparr>, \<lparr> text_msg = js ''world'', userId = None \<rparr>]
   \<and> (\<exists>ms'. textMessages demo_payload = Inr ms')"
proof -
  have t: "textMessages demo_payload
     = Inr [\<lparr> text_msg = js ''hello'', userId = None \<rparr>, \<lparr> text_msg = js ''world'', userId = None \<rparr>]"
    by code_simp
  have p: "\<forall>e \<in> set (events_of demo_payload). is_text_event e \<longrightarrow> plain_fields e"
    by code_simp
  have q: "filter qualifies (events_of demo_payload) = [text_event (js ''hello''), text_event (js ''world'')]"
    by code_simp
  from event_extraction [of demo_payload
      "[\<lparr> text_msg = js ''hello'', userId = None \<rparr>, \<lparr> text_msg = js ''world'', userId = None \<rparr>]"] t p
  have "list_all2 (\<lambda>e m. event_text e = Inr (text_msg m)) (filter qualifies (events_of demo_payload))
        [\<lparr> text_msg = js ''hello'', userId = None \<rparr>, \<lparr> text_msg = js ''world'', userId = None \<rparr>]"
    and "\<exists>ms'. textMessages demo_payload = Inr ms'"
    by blast+
  with t q show ?thesis by blast
qed


subsection \<open>Requests without text messages\<close>

lemma textMessages_no_events:
  "\<forall>es. opt_get (Some payload) (js ''events'') \<noteq> Some (JArr es) \<Longrightarrow> textMessages payload = Inr []"
  by (auto simp: textMessages_def events_of_def split: option.splits json.splits)

lemma events_of_no_array:
  "\<forall>es. opt_get (Some payload) (js ''events'') \<noteq> Some (JArr es) \<Longrightarrow> events_of payload = []"
  by (auto simp: events_of_def split: option.splits json.splits)

lemma handler_noop:
  assumes "request_method rq \<noteq> js ''GET''"
    and "requireEnv env (js ''LINE_CHANNEL_SECRET'') = Inr secret"
    and "verifyLineSignature (hmac_sha256_base64 rt) (request_text rq)
           (request_header rq (js ''x-line-signature'')) secret = Inr True"
    and "json_parse rt (request_text rq) = Inr payload"
    and "textMessages payload = Inr ms" "filter qualifies (events_of payload) = []"
  shows "handler rt env rq =
              (Inr \<lparr> status_code = 200,
                     jsonBody = JObj [(js ''ok'', JBool True), (js ''appended'', JNum (js ''0''))] \<rparr>,
               [EnvRead (js ''LINE_CHANNEL_SECRET'')])"
proof -
  from textMessages_kept [OF assms(5)] assms(6) have "ms = []" by simp
  with assms show ?thesis by (simp add: handler_def)
qed

text \<open>
  C10, as amended. A POST that passes the signature check and whose payload has
  no qualifying event is answered 200 with \<^verbatim>\<open>{ok:true, appended:0}\<close> whenever
  the extraction returns, as it does when the text events have primitive text
  and user id; the handler has then read \<^verbatim>\<open>LINE_CHANNEL_SECRET\<close> and done
  nothing else: no request to the store, no read of \<^verbatim>\<open>GITHUB_TOKEN\<close>. A
  payload whose \<^verbatim>\<open>events\<close> is absent or not an array has no qualifying event
  and is answered so.
\<close>

theorem noop_without_store:
  assumes "request_method rq \<noteq> js ''GET''"
    and "requireEnv env (js ''LINE_CHANNEL_SECRET'') = Inr secret"
    and "verifyLineSignature (hmac_sha256_base64 rt) (request_text rq)
           (request_header rq (js ''x-line-signature'')) secret = Inr True"
    and "json_parse rt (request_text rq) = Inr payload"
  shows "(filter qualifies (events_of payload) = [] \<and> textMessages payload = Inr ms \<longrightarrow>
            handler rt env rq =
              (Inr \<lparr> status_code = 200,
                     jsonBody = JObj [(js ''ok'', JBool True), (js ''appended'', JNum (js ''0''))] \<rparr>,
               [EnvRead (js ''LINE_CHANNEL_SECRET'')]))
         \<and> (filter qualifies (events_of payload) = []
              \<and> (\<forall>e \<in> set (events_of payload). is_text_event e \<longrightarrow> plain_fields e) \<longrightarrow>
            handler rt env rq =
              (Inr \<lparr> status_code = 200,
                     jsonBody = JObj [(js ''ok'', JBool True), (js ''appended'', JNum (js ''0''))] \<rparr>,
               [EnvRead (js ''LINE_CHANNEL_SECRET'')]))
         \<and> ((\<forall>es. opt_get (Some payload) (js ''events'') \<noteq> Some (JArr es)) \<longrightarrow>
            filter qualifies (events_of payload) = []
            \<and> handler rt env rq =
              (Inr \<lparr> status_code = 200,
                     jsonBody = JObj [(js ''ok'', JBool True), (js ''appended'', JNum (js ''0''))] \<rparr>,
               [EnvRead (js ''LINE_CHANNEL_SECRET'')]))"
proof (intro conjI impI)
  assume "filter qualifies (events_of payload) = [] \<and> textMessages payload = Inr ms"
  then show "handler rt env rq =
              (Inr \<lparr> status_code = 200,
                     jsonBody = JObj [(js ''ok'', JBool True), (js ''appended'', JNum (js ''0''))] \<rparr>,
               [EnvRead (js ''LINE_CHANNEL_SECRET'')])"
    using handler_noop [OF assms] by blast
next
  assume a: "filter qualifies (events_of payload) = []
              \<and> (\<forall>e \<in> set (events_of payload). is_text_event e \<longrightarrow> plain_fields e)"
  then obtain ms' where "textMessages payload = Inr ms'"
    using textMessages_returns by blast
  with a show "handler rt env rq =
              (Inr \<lparr> status_code = 200,
                     jsonBody = JObj [(js ''ok'', JBool True), (js ''appended'', JNum (js ''0''))] \<rparr>,
               [EnvRead (js ''LINE_CHANNEL_SECRET'')])"
    using handler_noop [OF assms] by blast
next
  assume a: "\<forall>es. opt_get (Some payload) (js ''events'') \<noteq> Some (JArr es)"
  then show q: "filter qualifies (events_of payload) = []"
    by (simp add: events_of_no_array)
  from a have "textMessages payload = Inr []"
    by (rule textMessages_no_events)
  with q show "handler rt env rq =
              (Inr \<lparr> status_code = 200,
                     jsonBody = JObj [(js ''ok'', JBool True), (js ''appended'', JNum (js ''0''))] \<rparr>,
               [EnvRead (js ''LINE_CHANNEL_SECRET'')])"
    using handler_noop [OF assms] by blast
qed

text \<open>
  C10 as stated fails: a signed payload whose one text event is blank, and so
  does not qualify, and has an object with a \<^verbatim>\<open>toString\<close> property for user
  id makes the handler throw instead of answering.
\<close>

theorem noop_without_store_counterexample:
  "verifyLineSignature (hmac_sha256_base64 demo_rt) (request_text (demo_post blank_object_id_body))
       (request_header (demo_post blank_object_id_body) (js ''x-line-signature'')) (js ''s'') = Inr True
   \<and> json_parse demo_rt (request_text (demo_post blank_object_id_body)) = Inr blank_object_id_payload
   \<and> filter qualifies (events_of blank_object_id_payload) = []
   \<and> handler demo_rt secret_only_env (demo_post blank_object_id_body)
       = (Inl (TypeError (js ''Cannot convert object to primitive value'')),
          [EnvRead (js ''LINE_CHANNEL_SECRET'')])"
  by code_simp

theorem noop_without_store_witness:
  "request_method (demo_post blank_body) \<noteq> js ''GET''
   \<and> requireEnv secret_only_env (js ''LINE_CHANNEL_SECRET'') = Inr (js ''s'')
   \<and> secret_only_env (js ''GITHUB_TOKEN'') = None
   \<and> verifyLineSignature (hmac_sha256_base64 demo_rt) (request_text (demo_post blank_body))
           (request_header (demo_post blank_body) (js ''x-line-signature'')) (js ''s'') = Inr True
   \<and> json_parse demo_rt (request_text (demo_post blank_body)) = Inr blank_payload
   \<and> events_of blank_payload = [image_event, text_event (js ''   '')]
   \<and> filter qualifies (events_of blank_payload) = []
   \<and> textMessages blank_payload = Inr []
   \<and> handler demo_rt secret_only_env (demo_post blank_body) =
              (Inr \<lparr> status_code = 200,
                     jsonBody = JObj [(js ''ok'', JBool True), (js ''appended'', JNum (js ''0''))] \<rparr>,
               [EnvRead (js ''LINE_CHANNEL_SECRET'')])
   \<and> json_parse demo_rt (request_text (demo_post (js ''{}''))) = Inr (JObj [])
   \<and> (\<forall>es. opt_get (Some (JObj [])) (js ''events'') \<noteq> Some (JArr es))
   \<and> handler demo_rt secret_only_env (demo_post (js ''{}'')) =
              (Inr \<lparr> status_code = 200,
                     jsonBody = JObj [(js ''ok'', JBool True), (js ''appended'', JNum (js ''0''))] \<rparr>,
               [EnvRead (js ''LINE_CHANNEL_SECRET'')])"
proof -
  have m: "request_method (demo_post b) \<noteq> js ''GET''" for b
    by (simp add: demo_post_def js_def)
  have e: "requireEnv secret_only_env (js ''LINE_CHANNEL_SECRET'') = Inr (js ''s'')"
    by (simp add: requireEnv_def secret_only_env_def)
  have t: "secret_only_env (js ''GITHUB_TOKEN'') = None"
    by (simp add: secret_only_env_def js_def)
  have p1: "json_parse demo_rt (request_text (demo_post blank_body)) = Inr blank_payload"
    by code_simp
  have p2: "json_parse demo_rt (request_text (demo_post (js ''{}''))) = Inr (JObj [])"
    by (simp add: demo_rt_def demo_post_def demo_parse_def)
  have ev: "events_of blank_payload = [image_event, text_event (js ''   '')]"
    by code_simp
  have q: "filter qualifies (events_of blank_payload) = []"
    by code_simp
  have x: "textMessages blank_payload = Inr []"
    by code_simp
  have pl: "\<forall>e \<in> set (events_of blank_payload). is_text_event e \<longrightarrow> plain_fields e"
    by code_simp
  have a: "\<forall>es. opt_get (Some (JObj [])) (js ''events'') \<noteq> Some (JArr es)"
    by simp
  note n1 = noop_without_store [OF m e demo_post_signed p1, of "[]"]
  note n2 = noop_without_store [OF m e demo_post_signed p2, of "[]"]
  from n1 [THEN conjunct2, THEN conjunct1] q pl
  have 1: "handler demo_rt secret_only_env (demo_post blank_body) =
              (Inr \<lparr> status_code = 200,
                     jsonBody = JObj [(js ''ok'', JBool True), (js ''appended'', JNum (js ''0''))] \<rparr>,
               [EnvRead (js ''LINE_CHANNEL_SECRET'')])"
    by blast
  from n2 [THEN conjunct2, THEN conjunct2] a
  have 2: "handler demo_rt secret_only_env (demo_post (js ''{}'')) =
              (Inr \<lparr> status_code = 200,
                     jsonBody = JObj [(js ''ok'', JBool True), (js ''appended'', JNum (js ''0''))] \<rparr>,
               [EnvRead (js ''LINE_CHANNEL_SECRET'')])"
    by blast
  from m [of blank_body] e t demo_post_signed [of blank_body] p1 ev q x 1 p2 a 2 show ?thesis
    by blast
qed


subsection \<open>The store client and one attempt\<close>

lemma githubRequest_trace:
  "snd (githubRequest rt tr url m tok body hs) =
     tr @ [Http \<lparr> req_method = m, req_url = url,
                  req_headers =
                    [(js ''Authorization'', js ''Bearer '' @ tok),
                     (js ''Accept'', js ''application/vnd.github+json''),
                     (js ''X-GitHub-Api-Version'', js ''2022-11-28'')] @ hs,
                  req_body = body \<rparr>]"
  by (simp add: githubRequest_def Let_def)

lemma getGitHubFile_returned:
  assumes "getGitHubFile rt tr owner repo path br tok = (Inr cur, tr')"
  shows "(\<exists>ow. encodeURIComponent rt owner = Inr ow) \<and> (\<exists>rp. encodeURIComponent rt repo = Inr rp)
    \<and> (\<exists>g. tr' = tr @ [Http g] \<and> req_method g = js ''GET'' \<and> req_body g = None)"
proof -
  from assms obtain ow rp b where enc: "encodeURIComponent rt owner = Inr ow"
    "encodeURIComponent rt repo = Inr rp" "encodeURIComponent rt br = Inr b"
    by (auto simp: getGitHubFile_def split: sum.splits)
  let ?url = "js ''https://api.github.com/repos/'' @ ow @ js ''/'' @ rp @ js ''/contents/''
                  @ path @ js ''?ref='' @ b"
  obtain r t where g: "githubRequest rt tr ?url (js ''GET'') tok None [] = (r, t)"
    by (cases "githubRequest rt tr ?url (js ''GET'') tok None []")
  with githubRequest_trace [of rt tr ?url "js ''GET''" tok None "[]"]
  have t: "\<exists>g. t = tr @ [Http g] \<and> req_method g = js ''GET'' \<and> req_body g = None"
    by simp
  from assms enc g have "tr' = t"
    by (auto simp: getGitHubFile_def Let_def split: sum.splits if_splits)
  with t enc show ?thesis by blast
qed

lemma putGitHubFile_trace:
  assumes "encodeURIComponent rt owner = Inr ow" "encodeURIComponent rt repo = Inr rp"
  shows "snd (putGitHubFile rt tr owner repo path br tok c s m) =
     tr @ [Http (put_request ow rp path br tok c s m)]"
proof -
  let ?url = "js ''https://api.github.com/repos/'' @ ow @ js ''/'' @ rp @ js ''/contents/'' @ path"
  let ?body = "\<lparr> message = m, content = to_base64 (utf8_encode c), branch = br,
                  sha = (if truthy s then s else None) \<rparr>"
  let ?hs = "[(js ''Content-Type'', js ''application/json'')]"
  obtain r t where g: "githubRequest rt tr ?url (js ''PUT'') tok (Some ?body) ?hs = (r, t)"
    by (cases "githubRequest rt tr ?url (js ''PUT'') tok (Some ?body) ?hs")
  with githubRequest_trace [of rt tr ?url "js ''PUT''" tok "Some ?body" ?hs]
  have t: "t = tr @ [Http (put_request ow rp path br tok c s m)]"
    by (simp add: put_request_def)
  from assms g have "snd (putGitHubFile rt tr owner repo path br tok c s m) = t"
    by (auto simp: putGitHubFile_def Let_def split: sum.splits if_splits)
  with t show ?thesis by simp
qed

lemma attempt_absent:
  assumes "getGitHubFile rt tr (job_owner j) (job_repo j) (job_path j) (job_branch j) (job_token j)
             = (Inr Absent, tr1)"
  shows "\<exists>ow rp. encodeURIComponent rt (job_owner j) = Inr ow \<and> encodeURIComponent rt (job_repo j) = Inr rp
    \<and> snd (attempt rt j tr) =
        tr1 @ [Http (put_request ow rp (job_path j) (job_branch j) (job_token j)
                       (js ''# '' @ job_date j @ [LF, LF] @ job_entry j) None (job_commitMsg j))]"
proof -
  from getGitHubFile_returned [OF assms] obtain ow rp
    where enc: "encodeURIComponent rt (job_owner j) = Inr ow" "encodeURIComponent rt (job_repo j) = Inr rp"
    by blast
  have "snd (attempt rt j tr) =
      snd (putGitHubFile rt tr1 (job_owner j) (job_repo j) (job_path j) (job_branch j) (job_token j)
        (js ''# '' @ job_date j @ [LF, LF] @ job_entry j) None (job_commitMsg j))"
    using assms by (simp add: attempt_def Let_def split: prod.splits sum.splits)
  with putGitHubFile_trace [OF enc] enc show ?thesis by simp
qed

lemma attempt_present:
  assumes "getGitHubFile rt tr (job_owner j) (job_repo j) (job_path j) (job_branch j) (job_token j)
             = (Inr (Present s c), tr1)"
  shows "\<exists>ow rp. encodeURIComponent rt (job_owner j) = Inr ow \<and> encodeURIComponent rt (job_repo j) = Inr rp
    \<and> snd (attempt rt j tr) =
        tr1 @ [Http (put_request ow rp (job_path j) (job_branch j) (job_token j)
                       (ensureEndsWithNewline c @ job_entry j) s (job_commitMsg j))]"
proof -
  from getGitHubFile_returned [OF assms] obtain ow rp
    where enc: "encodeURIComponent rt (job_owner j) = Inr ow" "encodeURIComponent rt (job_repo j) = Inr rp"
    by blast
  have "snd (attempt rt j tr) =
      snd (putGitHubFile rt tr1 (job_owner j) (job_repo j) (job_path j) (job_branch j) (job_token j)
        (ensureEndsWithNewline c @ job_entry j) s (job_commitMsg j))"
    using assms by (simp add: attempt_def Let_def split: prod.splits sum.splits)
  with putGitHubFile_trace [OF enc] enc show ?thesis by simp
qed

lemma ensureEndsWithNewline_alt:
  "ensureEndsWithNewline c = (if endsWith c [LF] then c else c @ [LF])"
  by (simp add: ensureEndsWithNewline_def)

lemma digits_not_LF: "list_all (\<lambda>c. 0x30 \<le> c \<and> c \<le> 0x39) f \<Longrightarrow> LF \<notin> set f"
  by (auto simp: list_all_iff LF_def)

lemma decimal_date_one_line:
  "decimal_parts parts \<Longrightarrow> LF \<notin> set (date (formatTokyoParts parts))"
  by (auto simp: decimal_parts_def decimal_string_def formatTokyoParts_def js_def dest: digits_not_LF)
     (simp add: LF_def)

text \<open>
  C6. When the fetch of an attempt reports that the document does not exist,
  the attempt sends a PUT whose body has no \<^verbatim>\<open>sha\<close> and whose content is the
  line \<^verbatim>\<open># <date>\<close>, an empty line and the new block. In the handler the date
  and the block of the job are those of the request's time parts, and a date of
  decimal parts is one line.
\<close>

theorem create_without_token:
  "(getGitHubFile rt tr (job_owner j) (job_repo j) (job_path j) (job_branch j) (job_token j)
      = (Inr Absent, tr1) \<longrightarrow>
      (\<exists>req. snd (attempt rt j tr) = tr1 @ [Http req]
         \<and> req_method req = js ''PUT''
         \<and> req_body req =
             Some \<lparr> message = job_commitMsg j,
                    content = to_base64 (utf8_encode (js ''# '' @ job_date j @ [LF] @ [LF] @ job_entry j)),
                    branch = job_branch j,
                    sha = None \<rparr>))
   \<and> job_date (append_job_of rt env ms tok) = date (formatTokyoParts (now rt))
   \<and> job_entry (append_job_of rt env ms tok) = render_entry (formatTokyoParts (now rt)) ms
   \<and> (decimal_parts (now rt) \<longrightarrow> LF \<notin> set (date (formatTokyoParts (now rt))))"
proof (intro conjI impI)
  assume "getGitHubFile rt tr (job_owner j) (job_repo j) (job_path j) (job_branch j) (job_token j)
      = (Inr Absent, tr1)"
  from attempt_absent [OF this] show "\<exists>req. snd (attempt rt j tr) = tr1 @ [Http req]
         \<and> req_method req = js ''PUT''
         \<and> req_body req =
             Some \<lparr> message = job_commitMsg j,
                    content = to_base64 (utf8_encode (js ''# '' @ job_date j @ [LF] @ [LF] @ job_entry j)),
                    branch = job_branch j,
                    sha = None \<rparr>"
    by (auto simp: put_request_def)
next
  show "job_date (append_job_of rt env ms tok) = date (formatTokyoParts (now rt))"
    by (simp add: append_job_of_def Let_def)
  show "job_entry (append_job_of rt env ms tok) = render_entry (formatTokyoParts (now rt)) ms"
    by (simp add: append_job_of_def Let_def)
next
  assume "decimal_parts (now rt)"
  then show "LF \<notin> set (date (formatTokyoParts (now rt)))"
    by (rule decimal_date_one_line)
qed


theorem create_without_token_witness:
  "fst (fetch_of (store_rt 404 [] 201) demo_job []) = Inr Absent
   \<and> (\<exists>req. snd (attempt (store_rt 404 [] 201) demo_job [])
               = snd (fetch_of (store_rt 404 [] 201) demo_job []) @ [Http req]
         \<and> req_method req = js ''PUT''
         \<and> req_body req =
             Some \<lparr> message = js ''note: append from LINE (2026-01-02)'',
                    content = js ''IyAyMDI2LTAxLTAyCgotIDE0OjAzIGhpCg=='',
                    branch = js ''main'',
                    sha = None \<rparr>)
   \<and> decimal_parts (now (store_rt 404 [] 201))
   \<and> LF \<notin> set (date (formatTokyoParts (now (store_rt 404 [] 201))))"
proof -
  let ?rt = "store_rt 404 [] 201"
  have f: "fst (fetch_of ?rt demo_job []) = Inr Absent"
    by code_simp
  then have g: "getGitHubFile ?rt [] (job_owner demo_job) (job_repo demo_job) (job_path demo_job)
      (job_branch demo_job) (job_token demo_job) = (Inr Absent, snd (fetch_of ?rt demo_job []))"
    by (simp add: fetch_of_def prod_eq_iff)
  have d: "decimal_parts (now ?rt)"
    by code_simp
  have j: "job_commitMsg demo_job = js ''note: append from LINE (2026-01-02)''"
    "job_date demo_job = js ''2026-01-02''" "job_entry demo_job = js ''- 14:03 hi'' @ [LF]"
    "job_branch demo_job = js ''main''"
    by code_simp+
  have b: "to_base64 (utf8_encode (js ''# '' @ js ''2026-01-02'' @ [LF] @ [LF] @ js ''- 14:03 hi'' @ [LF]))
      = js ''IyAyMDI2LTAxLTAyCgotIDE0OjAzIGhpCg==''"
    by code_simp
  note c = create_without_token [of ?rt "[]" demo_job "snd (fetch_of ?rt demo_job [])" secret_only_env "[]" "[]"]
  from c [THEN conjunct1] g j b
  have 1: "\<exists>req. snd (attempt ?rt demo_job []) = snd (fetch_of ?rt demo_job []) @ [Http req]
         \<and> req_method req = js ''PUT''
         \<and> req_body req =
             Some \<lparr> message = js ''note: append from LINE (2026-01-02)'',
                    content = js ''IyAyMDI2LTAxLTAyCgotIDE0OjAzIGhpCg=='',
                    branch = js ''main'',
                    sha = None \<rparr>"
    by simp
  from c [THEN conjunct2, THEN conjunct2, THEN conjunct2] d
  have 2: "LF \<notin> set (date (formatTokyoParts (now ?rt)))"
    by simp
  from f 1 d 2 show ?thesis by blast
qed


lemma ensureEndsWithNewline_ends: "endsWith (ensureEndsWithNewline c) [LF]"
  by (simp add: ensureEndsWithNewline_def)

text \<open>
  C5, as amended. When the fetch of an attempt returns an existing document,
  the same attempt sends a PUT whose content is the existing content, with a
  newline appended when it does not already end with one, followed by the new
  block; the body carries the \<^verbatim>\<open>sha\<close> of that fetch when it is truthy.
\<close>

theorem append_to_existing:
  "(getGitHubFile rt tr (job_owner j) (job_repo j) (job_path j) (job_branch j) (job_token j)
      = (Inr (Present s c), tr1) \<longrightarrow>
      (\<exists>get req. tr1 = tr @ [Http get] \<and> req_method get = js ''GET''
         \<and> snd (attempt rt j tr) = tr1 @ [Http req]
         \<and> req_method req = js ''PUT''
         \<and> req_body req =
             Some \<lparr> message = job_commitMsg j,
                    content = to_base64 (utf8_encode (ensureEndsWithNewline c @ job_entry j)),
                    branch = job_branch j,
                    sha = (if truthy s then s else None) \<rparr>))
   \<and> ensureEndsWithNewline c' = (if endsWith c' [LF] then c' else c' @ [LF])
   \<and> endsWith (ensureEndsWithNewline c') [LF]"
proof (intro conjI impI)
  assume a: "getGitHubFile rt tr (job_owner j) (job_repo j) (job_path j) (job_branch j) (job_token j)
      = (Inr (Present s c), tr1)"
  from getGitHubFile_returned [OF a] obtain get where "tr1 = tr @ [Http get]" "req_method get = js ''GET''"
    by blast
  with attempt_present [OF a]
  show "\<exists>get req. tr1 = tr @ [Http get] \<and> req_method get = js ''GET''
         \<and> snd (attempt rt j tr) = tr1 @ [Http req]
         \<and> req_method req = js ''PUT''
         \<and> req_body req =
             Some \<lparr> message = job_commitMsg j,
                    content = to_base64 (utf8_encode (ensureEndsWithNewline c @ job_entry j)),
                    branch = job_branch j,
                    sha = (if truthy s then s else None) \<rparr>"
    by (auto simp: put_request_def)
next
  show "ensureEndsWithNewline c' = (if endsWith c' [LF] then c' else c' @ [LF])"
    by (rule ensureEndsWithNewline_alt)
  show "endsWith (ensureEndsWithNewline c') [LF]"
    by (rule ensureEndsWithNewline_ends)
qed

text \<open>
  C5 as stated fails: existing content that ends with two newlines is written
  back with both, and an empty version token is left out of the write.
\<close>

theorem append_to_existing_counterexample:
  "fst (fetch_of (store_rt 200 file_blank_line_body 200) demo_job [])
     = Inr (Present (Some (JStr (js ''abc''))) (js ''a'' @ [LF, LF]))
   \<and> last_put_body (snd (attempt (store_rt 200 file_blank_line_body 200) demo_job []))
     = Some \<lparr> message = js ''note: append from LINE (2026-01-02)'',
              content = js ''YQoKLSAxNDowMyBoaQo='',
              branch = js ''main'',
              sha = Some (JStr (js ''abc'')) \<rparr>
   \<and> to_base64 (utf8_encode (js ''a'' @ [LF, LF] @ js ''- 14:03 hi'' @ [LF]))
     = js ''YQoKLSAxNDowMyBoaQo=''
   \<and> \<not> single_trailing_newline (ensureEndsWithNewline (js ''a'' @ [LF, LF]))
   \<and> fst (fetch_of (store_rt 200 file_no_sha_body 200) demo_job [])
     = Inr (Present (Some (JStr [])) (js ''a'' @ [LF]))
   \<and> last_put_body (snd (attempt (store_rt 200 file_no_sha_body 200) demo_job []))
     = Some \<lparr> message = js ''note: append from LINE (2026-01-02)'',
              content = js ''YQotIDE0OjAzIGhpCg=='',
              branch = js ''main'',
              sha = None \<rparr>
   \<and> to_base64 (utf8_encode (js ''a'' @ [LF] @ js ''- 14:03 hi'' @ [LF]))
     = js ''YQotIDE0OjAzIGhpCg==''"
  by code_simp

theorem append_to_existing_witness:
  "fst (fetch_of (store_rt 200 file_a_body 200) demo_job [])
     = Inr (Present (Some (JStr (js ''abc''))) (js ''a''))
   \<and> (\<exists>get req.
        snd (fetch_of (store_rt 200 file_a_body 200) demo_job []) = [] @ [Http get]
        \<and> req_method get = js ''GET''
        \<and> snd (attempt (store_rt 200 file_a_body 200) demo_job [])
           = snd (fetch_of (store_rt 200 file_a_body 200) demo_job []) @ [Http req]
        \<and> req_method req = js ''PUT''
        \<and> req_body req =
             Some \<lparr> message = js ''note: append from LINE (2026-01-02)'',
                    content = js ''YQotIDE0OjAzIGhpCg=='',
                    branch = js ''main'',
                    sha = Some (JStr (js ''abc'')) \<rparr>)
   \<and> ensureEndsWithNewline (js ''a'') = js ''a'' @ [LF]
   \<and> endsWith (ensureEndsWithNewline (js ''a'')) [LF]"
proof -
  let ?rt = "store_rt 200 file_a_body 200"
  have f: "fst (fetch_of ?rt demo_job []) = Inr (Present (Some (JStr (js ''abc''))) (js ''a''))"
    by code_simp
  then have g: "getGitHubFile ?rt [] (job_owner demo_job) (job_repo demo_job) (job_path demo_job)
      (job_branch demo_job) (job_token demo_job)
      = (Inr (Present (Some (JStr (js ''abc''))) (js ''a'')), snd (fetch_of ?rt demo_job []))"
    by (simp add: fetch_of_def prod_eq_iff)
  have j: "job_commitMsg demo_job = js ''note: append from LINE (2026-01-02)''"
    "job_entry demo_job = js ''- 14:03 hi'' @ [LF]" "job_branch demo_job = js ''main''"
    by code_simp+
  have e: "\<not> endsWith (js ''a'') [LF]"
    by (simp add: js_def LF_def)
  have b: "to_base64 (utf8_encode (js ''a'' @ [LF] @ js ''- 14:03 hi'' @ [LF])) = js ''YQotIDE0OjAzIGhpCg==''"
    by code_simp
  note c = append_to_existing [of ?rt "[]" demo_job "Some (JStr (js ''abc''))" "js ''a''"
      "snd (fetch_of ?rt demo_job [])" "js ''a''"]
  from c [THEN conjunct2, THEN conjunct1] e
  have n: "ensureEndsWithNewline (js ''a'') = js ''a'' @ [LF]" by simp
  from c [THEN conjunct1] g j n b
  have 1: "\<exists>get req. snd (fetch_of ?rt demo_job []) = [] @ [Http get]
        \<and> req_method get = js ''GET''
        \<and> snd (attempt ?rt demo_job []) = snd (fetch_of ?rt demo_job []) @ [Http req]
        \<and> req_method req = js ''PUT''
        \<and> req_body req =
             Some \<lparr> message = js ''note: append from LINE (2026-01-02)'',
                    content = js ''YQotIDE0OjAzIGhpCg=='',
                    branch = js ''main'',
                    sha = Some (JStr (js ''abc'')) \<rparr>"
    by simp
  from c [THEN conjunct2, THEN conjunct2]
  have 2: "endsWith (ensureEndsWithNewline (js ''a'')) [LF]" .
  from f 1 n 2 show ?thesis by blast
qed


subsection \<open>The retry loop\<close>

lemma getGitHubFile_sends:
  assumes "encodeURIComponent rt owner = Inr ow" "encodeURIComponent rt repo = Inr rp"
    and "encodeURIComponent rt br = Inr b"
  shows "snd (getGitHubFile rt tr owner repo path br tok) = tr @ [Http (get_request ow rp path b tok)]"
proof -
  let ?url = "js ''https://api.github.com/repos/'' @ ow @ js ''/'' @ rp @ js ''/contents/''
                  @ path @ js ''?ref='' @ b"
  obtain r t where g: "githubRequest rt tr ?url (js ''GET'') tok None [] = (r, t)"
    by (cases "githubRequest rt tr ?url (js ''GET'') tok None []")
  with githubRequest_trace [of rt tr ?url "js ''GET''" tok None "[]"]
  have t: "t = tr @ [Http (get_request ow rp path b tok)]"
    by (simp add: get_request_def)
  from assms g have "snd (getGitHubFile rt tr owner repo path br tok) = t"
    by (auto simp: getGitHubFile_def Let_def split: sum.splits if_splits)
  with t show ?thesis by simp
qed

lemma getGitHubFile_unencoded:
  assumes "encodeURIComponent rt owner = Inl e \<or> encodeURIComponent rt repo = Inl e
    \<or> encodeURIComponent rt br = Inl e"
  shows "snd (getGitHubFile rt tr owner repo path br tok) = tr
    \<and> (\<exists>e'. fst (getGitHubFile rt tr owner repo path br tok) = Inl e')"
  using assms by (auto simp: getGitHubFile_def split: sum.splits)

lemma attempt_unencoded:
  assumes "encodeURIComponent rt (job_owner j) = Inl e \<or> encodeURIComponent rt (job_repo j) = Inl e
    \<or> encodeURIComponent rt (job_branch j) = Inl e"
  shows "snd (attempt rt j tr) = tr \<and> (\<exists>e'. fst (attempt rt j tr) = Inl e')"
proof -
  from getGitHubFile_unencoded [OF assms, of tr "job_path j" "job_token j"]
  obtain e' where "getGitHubFile rt tr (job_owner j) (job_repo j) (job_path j) (job_branch j) (job_token j)
      = (Inl e', tr)"
    by (auto simp: prod_eq_iff)
  then show ?thesis by (simp add: attempt_def)
qed

lemma attempt_fetch_failed:
  assumes "encodeURIComponent rt (job_owner j) = Inr ow" "encodeURIComponent rt (job_repo j) = Inr rp"
    and "encodeURIComponent rt (job_branch j) = Inr b"
    and "fst (getGitHubFile rt tr (job_owner j) (job_repo j) (job_path j) (job_branch j) (job_token j)) = Inl e"
  shows "attempt rt j tr = (Inl e, tr @ [Http (get_request ow rp (job_path j) b (job_token j))])"
proof -
  from assms(4) getGitHubFile_sends [OF assms(1-3), of tr "job_path j" "job_token j"]
  have "getGitHubFile rt tr (job_owner j) (job_repo j) (job_path j) (job_branch j) (job_token j)
      = (Inl e, tr @ [Http (get_request ow rp (job_path j) b (job_token j))])"
    by (simp add: prod_eq_iff)
  then show ?thesis by (simp add: attempt_def)
qed

lemma attempt_fetch_returned:
  assumes "encodeURIComponent rt (job_owner j) = Inr ow" "encodeURIComponent rt (job_repo j) = Inr rp"
    and "encodeURIComponent rt (job_branch j) = Inr b"
    and "fst (getGitHubFile rt tr (job_owner j) (job_repo j) (job_path j) (job_branch j) (job_token j)) = Inr cur"
  shows "\<exists>c s. snd (attempt rt j tr) =
      tr @ [Http (get_request ow rp (job_path j) b (job_token j)),
            Http (put_request ow rp (job_path j) (job_branch j) (job_token j) c s (job_commitMsg j))]"
proof -
  let ?g = "get_request ow rp (job_path j) b (job_token j)"
  from assms(4) getGitHubFile_sends [OF assms(1-3), of tr "job_path j" "job_token j"]
  have g: "getGitHubFile rt tr (job_owner j) (job_repo j) (job_path j) (job_branch j) (job_token j)
      = (Inr cur, tr @ [Http ?g])"
    by (simp add: prod_eq_iff)
  show ?thesis
  proof (cases cur)
    case Absent
    from attempt_absent [OF g [unfolded Absent]] assms(1,2) show ?thesis
      by auto
  next
    case (Present s c)
    from attempt_present [OF g [unfolded Present]] assms(1,2) show ?thesis
      by auto
  qed
qed

lemma attempt_trace:
  assumes "encodeURIComponent rt (job_owner j) = Inr ow" "encodeURIComponent rt (job_repo j) = Inr rp"
    and "encodeURIComponent rt (job_branch j) = Inr b"
  shows "\<exists>a. snd (attempt rt j tr) = tr @ a
    \<and> is_attempt_trace (get_request ow rp (job_path j) b (job_token j)) a"
proof (cases "fst (getGitHubFile rt tr (job_owner j) (job_repo j) (job_path j) (job_branch j) (job_token j))")
  case (Inl e)
  from attempt_fetch_failed [OF assms Inl] show ?thesis
    by (intro exI [of _ "[Http (get_request ow rp (job_path j) b (job_token j))]"]) simp
next
  case (Inr cur)
  from attempt_fetch_returned [OF assms Inr] obtain c s where "snd (attempt rt j tr) =
      tr @ [Http (get_request ow rp (job_path j) b (job_token j)),
            Http (put_request ow rp (job_path j) (job_branch j) (job_token j) c s (job_commitMsg j))]"
    by blast
  then show ?thesis
    by (intro exI [of _ "[Http (get_request ow rp (job_path j) b (job_token j)),
            Http (put_request ow rp (job_path j) (job_branch j) (job_token j) c s (job_commitMsg j))]"])
       (simp add: put_request_def)
qed

lemma attempt_fetch_absent:
  assumes "encodeURIComponent rt (job_owner j) = Inr ow" "encodeURIComponent rt (job_repo j) = Inr rp"
    and "encodeURIComponent rt (job_branch j) = Inr b"
    and "fst (getGitHubFile rt tr (job_owner j) (job_repo j) (job_path j) (job_branch j) (job_token j))
           = Inr Absent"
  shows "snd (attempt rt j tr) =
      tr @ [Http (get_request ow rp (job_path j) b (job_token j)),
            Http (put_request ow rp (job_path j) (job_branch j) (job_token j)
                    (js ''# '' @ job_date j @ [LF, LF] @ job_entry j) None (job_commitMsg j))]"
proof -
  from assms(4) getGitHubFile_sends [OF assms(1-3), of tr "job_path j" "job_token j"]
  have "getGitHubFile rt tr (job_owner j) (job_repo j) (job_path j) (job_branch j) (job_token j)
      = (Inr Absent, tr @ [Http (get_request ow rp (job_path j) b (job_token j))])"
    by (simp add: prod_eq_iff)
  from attempt_absent [OF this] assms(1,2) show ?thesis by auto
qed

lemma attempt_fetch_present:
  assumes "encodeURIComponent rt (job_owner j) = Inr ow" "encodeURIComponent rt (job_repo j) = Inr rp"
    and "encodeURIComponent rt (job_branch j) = Inr b"
    and "fst (getGitHubFile rt tr (job_owner j) (job_repo j) (job_path j) (job_branch j) (job_token j))
           = Inr (Present s c)"
  shows "snd (attempt rt j tr) =
      tr @ [Http (get_request ow rp (job_path j) b (job_token j)),
            Http (put_request ow rp (job_path j) (job_branch j) (job_token j)
                    (ensureEndsWithNewline c @ job_entry j) s (job_commitMsg j))]"
proof -
  from assms(4) getGitHubFile_sends [OF assms(1-3), of tr "job_path j" "job_token j"]
  have "getGitHubFile rt tr (job_owner j) (job_repo j) (job_path j) (job_branch j) (job_token j)
      = (Inr (Present s c), tr @ [Http (get_request ow rp (job_path j) b (job_token j))])"
    by (simp add: prod_eq_iff)
  from attempt_present [OF this] assms(1,2) show ?thesis by auto
qed


lemma js_includes_iff: "js_includes s p \<longleftrightarrow> (\<exists>a b. s = a @ p @ b)"
proof (induction s)
  case Nil
  show ?case by auto
next
  case (Cons c s)
  show ?case
  proof
    assume "js_includes (c # s) p"
    then consider "prefix p (c # s)" | "js_includes s p" by auto
    then show "\<exists>a b. c # s = a @ p @ b"
    proof cases
      case 1
      then obtain b where "c # s = [] @ p @ b" by (auto simp: prefix_def)
      then show ?thesis by blast
    next
      case 2
      with Cons.IH obtain a b where "s = a @ p @ b" by blast
      then have "c # s = (c # a) @ p @ b" by simp
      then show ?thesis by blast
    qed
  next
    assume "\<exists>a b. c # s = a @ p @ b"
    then obtain a b where ab: "c # s = a @ p @ b" by blast
    show "js_includes (c # s) p"
    proof (cases a)
      case Nil
      with ab have "prefix p (c # s)" by (simp add: prefix_def)
      then show ?thesis by simp
    next
      case (Cons c' a')
      with ab have "s = a' @ p @ b" by simp
      with Cons.IH show ?thesis by auto
    qed
  qed
qed

lemma includes_409:
  "js_includes s (js ''(409)'') \<or> js_includes s (js ''409'') \<longleftrightarrow> js_includes s (js ''409'')"
proof -
  have "js_includes s (js ''409'')" if "js_includes s (js ''(409)'')"
  proof -
    from that obtain a b where "s = a @ js ''(409)'' @ b"
      by (auto simp: js_includes_iff)
    then have "s = (a @ js ''('') @ js ''409'' @ (js '')'' @ b)"
      by (simp add: js_def)
    then show ?thesis
      unfolding js_includes_iff by blast
  qed
  then show ?thesis by blast
qed

lemma retry_loop_failed:
  assumes "attempt rt j tr = (Inl e, tr')" "n \<le> 3"
  shows "retry_loop rt j n lastErr tr =
     (if js_includes (message_or_error (Some e)) (js ''409'') \<and> n < 3
      then retry_loop rt j (n + 1) (Some e) (tr' @ [Sleep (150 * n)])
      else (Fell_through (Some e), tr'))"
  using assms by (subst retry_loop.simps) (auto simp: Let_def includes_409)

lemma retry_loop_returned:
  assumes "attempt rt j tr = (Inr r, tr')" "n \<le> 3"
  shows "retry_loop rt j n lastErr tr = (Returned r, tr')"
  using assms by (subst retry_loop.simps) simp

lemma with_backoff_Cons:
  "as \<noteq> [] \<Longrightarrow> with_backoff n (a # as) = a @ [Sleep (150 * n)] @ with_backoff (Suc n) as"
  by (cases as) simp_all

lemma retry_loop_attempts:
  assumes "\<And>tr. \<exists>a. snd (attempt rt j tr) = tr @ a \<and> P a"
  shows "1 \<le> n \<Longrightarrow> n \<le> 3 \<Longrightarrow>
     \<exists>as. 1 \<le> length as \<and> length as \<le> 4 - n \<and> list_all P as
       \<and> snd (retry_loop rt j n lastErr tr) = tr @ with_backoff n as"
  using assms
proof (induction rt j n lastErr tr rule: retry_loop.induct)
  case (1 rt j n lastErr tr)
  note every = "1.prems"(3)
  from every [of tr] obtain a
    where a: "snd (attempt rt j tr) = tr @ a" "P a"
    by blast
  obtain res tr' where at: "attempt rt j tr = (res, tr')"
    by (cases "attempt rt j tr")
  with a have tr': "tr' = tr @ a" by simp
  show ?case
  proof (cases res)
    case (Inr r)
    with at "1.prems" have "retry_loop rt j n lastErr tr = (Returned r, tr')"
      by (simp add: retry_loop_returned)
    with a tr' "1.prems" show ?thesis
      by (intro exI [of _ "[a]"]) simp
  next
    case (Inl e)
    note step = retry_loop_failed [OF at [unfolded Inl] "1.prems"(2), of lastErr]
    show ?thesis
    proof (cases "js_includes (message_or_error (Some e)) (js ''409'') \<and> n < 3")
      case False
      with step have "retry_loop rt j n lastErr tr = (Fell_through (Some e), tr')"
        by auto
      with a tr' "1.prems" show ?thesis
        by (intro exI [of _ "[a]"]) simp
    next
      case True
      then have c: "js_includes (message_or_error (Some e)) (js ''(409)'')
          \<or> js_includes (message_or_error (Some e)) (js ''409'')"
        and n: "n \<noteq> 3" "1 \<le> n + 1" "n + 1 \<le> 3"
        by auto
      from "1.IH" [OF "1.prems"(2) at [unfolded Inl, symmetric] refl refl refl _ n(2,3) every] c n(1)
      obtain as where as: "1 \<le> length as" "length as \<le> 4 - (n + 1)" "list_all P as"
        "snd (retry_loop rt j (n + 1) (Some e) (tr' @ [Sleep (150 * n)]))
           = (tr' @ [Sleep (150 * n)]) @ with_backoff (n + 1) as"
        by auto
      from as(1) have ne: "as \<noteq> []" by auto
      from step True as(4) tr'
      have "snd (retry_loop rt j n lastErr tr) = tr @ with_backoff n (a # as)"
        by (simp add: with_backoff_Cons [OF ne])
      with as a(2) "1.prems" show ?thesis
        by (intro exI [of _ "a # as"]) auto
    qed
  qed
qed

lemma retry_loop_unencoded:
  assumes "encodeURIComponent rt (job_owner j) = Inl e \<or> encodeURIComponent rt (job_repo j) = Inl e
    \<or> encodeURIComponent rt (job_branch j) = Inl e"
  shows "\<exists>as. 1 \<le> length as \<and> length as \<le> 3 \<and> list_all (\<lambda>a. a = []) as
       \<and> snd (retry_loop rt j 1 None tr) = tr @ with_backoff 1 as"
proof -
  have "\<exists>a. snd (attempt rt j tr) = tr @ a \<and> a = []" for tr
    using attempt_unencoded [OF assms, of tr] by simp
  from retry_loop_attempts [of rt j "\<lambda>a. a = []" 1 None tr, OF this] show ?thesis
    by simp
qed



lemma append_notes_failed:
  assumes "requireEnv env (js ''GITHUB_TOKEN'') = Inr tok"
    and "retry_loop rt (append_job_of rt env ms tok) 1 None (tr0 @ store_reads) = (Fell_through lastErr, tr3)"
  shows "append_notes rt env ms tr0 =
     (Inr (failure_reply (append_job_of rt env ms tok) lastErr),
      tr3 @ [Log [js ''Failed to append note:'', message_or_error lastErr]])"
  using assms by (simp add: append_notes_def Let_def failure_reply_def store_reads_def)


lemma message_or_error_includes: "js_includes (message_or_error (Some e)) (err_message e)"
proof (cases "err_message e = []")
  case True
  have "message_or_error (Some e) = message_or_error (Some e) @ [] @ []" by simp
  then show ?thesis
    unfolding True js_includes_iff by blast
next
  case False
  then have "message_or_error (Some e) = [] @ err_message e @ []"
    by (simp add: message_or_error_def)
  then show ?thesis
    unfolding js_includes_iff by blast
qed

lemma three_conflicts:
  assumes "attempt rt j tr = (Inl e1, tr1)" "js_includes (message_or_error (Some e1)) (js ''409'')"
    and "attempt rt j (tr1 @ [Sleep 150]) = (Inl e2, tr2)" "js_includes (message_or_error (Some e2)) (js ''409'')"
    and "attempt rt j (tr2 @ [Sleep 300]) = (Inl e3, tr3)"
  shows "retry_loop rt j 1 None tr = (Fell_through (Some e3), tr3)"
proof -
  have "retry_loop rt j 1 None tr = retry_loop rt j 2 (Some e1) (tr1 @ [Sleep 150])"
    using retry_loop_failed [OF assms(1), of 1 None] assms(2) by (simp add: numeral_2_eq_2)
  also have "\<dots> = retry_loop rt j 3 (Some e2) (tr2 @ [Sleep 300])"
    using retry_loop_failed [OF assms(3), of 2 "Some e1"] assms(4) by (simp add: numeral_3_eq_3)
  also have "\<dots> = (Fell_through (Some e3), tr3)"
    using retry_loop_failed [OF assms(5), of 3 "Some e2"] by simp
  finally show ?thesis .
qed

lemma digits_409: "digits 409 = js ''409''"
  by (simp add: digits.simps js_def)

lemma status_409_message:
  "js_includes (message_or_error (Some (Error (a @ digits 409 @ b)))) (js ''409'')"
proof -
  have "message_or_error (Some (Error (a @ digits 409 @ b))) = a @ js ''409'' @ b"
    by (simp add: message_or_error_def Error_def digits_409 js_def)
  then show ?thesis
    unfolding js_includes_iff by blast
qed

lemma putGitHubFile_refused:
  assumes "encodeURIComponent rt owner = Inr ow" "encodeURIComponent rt repo = Inr rp"
    and "fetch rt (requests_of tr) (put_request ow rp path br tok c s m)
           = Responded \<lparr> status = st, body_text = Inr t \<rparr>"
    and "\<not> (200 \<le> st \<and> st \<le> 299)"
  shows "fst (putGitHubFile rt tr owner repo path br tok c s m)
     = Inl (Error (js ''GitHub PUT failed ('' @ digits st @ js ''): '' @ t))"
  using assms
  by (simp add: putGitHubFile_def githubRequest_def put_request_def Let_def res_ok_def)

lemma ensureEndsWithNewline_a: "ensureEndsWithNewline (js ''a'') = js ''a'' @ [LF]"
  by (simp add: ensureEndsWithNewline_def js_def LF_def)

lemma conflict_attempt_trace:
  "attempt conflict_rt j tr =
     (Inl conflict_error,
      tr @ [Http (get_request (job_owner j) (job_repo j) (job_path j) (job_branch j) (job_token j)),
            Http (put_request (job_owner j) (job_repo j) (job_path j) (job_branch j) (job_token j)
                    (js ''a'' @ [LF] @ job_entry j) (Some (JStr (js ''abc''))) (job_commitMsg j))])"
proof -
  have "attempt conflict_rt j tr =
     (Inl conflict_error,
      tr @ [Http (get_request (job_owner j) (job_repo j) (job_path j) (job_branch j) (job_token j)),
            Http (put_request (job_owner j) (job_repo j) (job_path j) (job_branch j) (job_token j)
                    (ensureEndsWithNewline (js ''a'') @ job_entry j) (Some (JStr (js ''abc'')))
                    (job_commitMsg j))])"
    by (simp add: attempt_def getGitHubFile_def putGitHubFile_def githubRequest_def conflict_rt_def
        store_rt_def store_fetch_def demo_rt_def demo_parse_def demo_decode_def file_a_body_def
        file_a_def hello_body_def or_empty_def res_ok_def Let_def conflict_error_def js_def
        get_request_def put_request_def digits.simps split: prod.splits)
  then show ?thesis by (simp add: ensureEndsWithNewline_a)
qed

lemma conflict_fetch:
  "fst (getGitHubFile conflict_rt tr ow rp p b t) = Inr (Present (Some (JStr (js ''abc''))) (js ''a''))"
  by (simp add: getGitHubFile_def githubRequest_def conflict_rt_def
      store_rt_def store_fetch_def demo_rt_def demo_parse_def demo_decode_def file_a_body_def
      file_a_def hello_body_def or_empty_def res_ok_def Let_def js_def split: prod.splits)

lemma error500_fetch: "fst (getGitHubFile error500_rt tr ow rp p b t) = Inl error500"
  by (simp add: getGitHubFile_def githubRequest_def error500_rt_def
      store_rt_def store_fetch_def demo_rt_def res_ok_def Let_def error500_def js_def
      digits.simps split: prod.splits)

lemma absent_fetch: "fst (getGitHubFile (store_rt 404 gb ps) tr ow rp p b t) = Inr Absent"
  by (simp add: getGitHubFile_def githubRequest_def
      store_rt_def store_fetch_def demo_rt_def Let_def split: prod.splits)

lemma demo_encodes:
  "encodeURIComponent conflict_rt x = Inr x" "encodeURIComponent error500_rt x = Inr x"
  "encodeURIComponent (store_rt g gb p) x = Inr x"
  by (simp_all add: conflict_rt_def error500_rt_def store_rt_def demo_rt_def)

text \<open>
  C3. From its start the loop makes one, two or three attempts. Each attempt
  first sends the fetch of the document and writes only after this fetch has
  returned: its effects are that GET alone when the fetch fails, and that GET
  followed by the PUT of the new content when it returns. Between attempt \<open>k\<close>
  and the next the handler waits \<open>150 * k\<close> ms. A write that the store answers
  with status 409 and a body that can be read fails with an error whose text
  contains \<^verbatim>\<open>409\<close>. After three attempts that fail with errors whose text
  contains \<^verbatim>\<open>409\<close> the loop gives up with the third error, and the reply is
  the failure whose detail is the text of that error. The
  owner, the repository and the branch go into the URL through
  \<^verbatim>\<open>encodeURIComponent\<close>; when one of them does not encode, every attempt
  fails before it sends anything, and the loop still makes at most three
  attempts with the same waits.
\<close>

theorem bounded_retry:
  "(encodeURIComponent rt (job_owner j) = Inr ow \<and> encodeURIComponent rt (job_repo j) = Inr rp
      \<and> encodeURIComponent rt (job_branch j) = Inr b \<longrightarrow>
      (\<exists>as. 1 \<le> length as \<and> length as \<le> 3
          \<and> list_all (is_attempt_trace (get_request ow rp (job_path j) b (job_token j))) as
          \<and> snd (retry_loop rt j 1 None tr) = tr @ with_backoff 1 as)
      \<and> (fst (getGitHubFile rt ta (job_owner j) (job_repo j) (job_path j) (job_branch j) (job_token j))
            = Inl e \<longrightarrow>
          attempt rt j ta = (Inl e, ta @ [Http (get_request ow rp (job_path j) b (job_token j))]))
      \<and> (fst (getGitHubFile rt ta (job_owner j) (job_repo j) (job_path j) (job_branch j) (job_token j))
            = Inr Absent \<longrightarrow>
          snd (attempt rt j ta) =
            ta @ [Http (get_request ow rp (job_path j) b (job_token j)),
                  Http (put_request ow rp (job_path j) (job_branch j) (job_token j)
                          (js ''# '' @ job_date j @ [LF, LF] @ job_entry j) None (job_commitMsg j))])
      \<and> (fst (getGitHubFile rt ta (job_owner j) (job_repo j) (job_path j) (job_branch j) (job_token j))
            = Inr (Present s c) \<longrightarrow>
          snd (attempt rt j ta) =
            ta @ [Http (get_request ow rp (job_path j) b (job_token j)),
                  Http (put_request ow rp (job_path j) (job_branch j) (job_token j)
                          (ensureEndsWithNewline c @ job_entry j) s (job_commitMsg j))])
      \<and> (fetch rt (requests_of tw)
              (put_request ow rp (job_path j) (job_branch j) (job_token j) cw sw (job_commitMsg j))
            = Responded \<lparr> status = 409, body_text = Inr t \<rparr> \<longrightarrow>
          fst (putGitHubFile rt tw (job_owner j) (job_repo j) (job_path j) (job_branch j) (job_token j)
                 cw sw (job_commitMsg j))
            = Inl (Error (js ''GitHub PUT failed ('' @ digits 409 @ js ''): '' @ t))
          \<and> js_includes
              (message_or_error (Some (Error (js ''GitHub PUT failed ('' @ digits 409 @ js ''): '' @ t))))
              (js ''409'')))
   \<and> (encodeURIComponent rt (job_owner j) = Inl eu \<or> encodeURIComponent rt (job_repo j) = Inl eu
        \<or> encodeURIComponent rt (job_branch j) = Inl eu \<longrightarrow>
        snd (attempt rt j ta) = ta \<and> (\<exists>e'. fst (attempt rt j ta) = Inl e')
        \<and> (\<exists>as. 1 \<le> length as \<and> length as \<le> 3 \<and> list_all (\<lambda>a. a = []) as
              \<and> snd (retry_loop rt j 1 None tr) = tr @ with_backoff 1 as))
   \<and> (attempt rt j tr = (Inl e1, tr1) \<and> js_includes (message_or_error (Some e1)) (js ''409'')
       \<and> attempt rt j (tr1 @ [Sleep 150]) = (Inl e2, tr2)
       \<and> js_includes (message_or_error (Some e2)) (js ''409'')
       \<and> attempt rt j (tr2 @ [Sleep 300]) = (Inl e3, tr3)
       \<longrightarrow> retry_loop rt j 1 None tr = (Fell_through (Some e3), tr3)
           \<and> js_includes (message_or_error (Some e3)) (err_message e3)
           \<and> (requireEnv env (js ''GITHUB_TOKEN'') = Inr tok \<and> j = append_job_of rt env ms tok
                \<and> tr = tr0 @ store_reads
              \<longrightarrow> append_notes rt env ms tr0 =
                    (Inr \<lparr> status_code = 200,
                           jsonBody = JObj [(js ''ok'', JBool False),
                                            (js ''error'', JStr (js ''append_failed'')),
                                            (js ''detail'', JStr (message_or_error (Some e3))),
                                            (js ''path'', JStr (job_path j))] \<rparr>,
                     tr3 @ [Log [js ''Failed to append note:'', message_or_error (Some e3)]])))"
proof (intro conjI impI)
  assume enc: "encodeURIComponent rt (job_owner j) = Inr ow \<and> encodeURIComponent rt (job_repo j) = Inr rp
      \<and> encodeURIComponent rt (job_branch j) = Inr b"
  then have e1: "encodeURIComponent rt (job_owner j) = Inr ow"
    and e2: "encodeURIComponent rt (job_repo j) = Inr rp"
    and e3: "encodeURIComponent rt (job_branch j) = Inr b"
    by simp_all
  show "\<exists>as. 1 \<le> length as \<and> length as \<le> 3
          \<and> list_all (is_attempt_trace (get_request ow rp (job_path j) b (job_token j))) as
          \<and> snd (retry_loop rt j 1 None tr) = tr @ with_backoff 1 as"
    using retry_loop_attempts [of rt j "is_attempt_trace (get_request ow rp (job_path j) b (job_token j))"
        1 None tr, OF attempt_trace [OF e1 e2 e3]]
    by simp
  {
    assume "fst (getGitHubFile rt ta (job_owner j) (job_repo j) (job_path j) (job_branch j) (job_token j))
            = Inl e"
    then show "attempt rt j ta = (Inl e, ta @ [Http (get_request ow rp (job_path j) b (job_token j))])"
      by (rule attempt_fetch_failed [OF e1 e2 e3])
  }
  {
    assume "fst (getGitHubFile rt ta (job_owner j) (job_repo j) (job_path j) (job_branch j) (job_token j))
            = Inr Absent"
    then show "snd (attempt rt j ta) =
            ta @ [Http (get_request ow rp (job_path j) b (job_token j)),
                  Http (put_request ow rp (job_path j) (job_branch j) (job_token j)
                          (js ''# '' @ job_date j @ [LF, LF] @ job_entry j) None (job_commitMsg j))]"
      by (rule attempt_fetch_absent [OF e1 e2 e3])
  }
  {
    assume "fst (getGitHubFile rt ta (job_owner j) (job_repo j) (job_path j) (job_branch j) (job_token j))
            = Inr (Present s c)"
    then show "snd (attempt rt j ta) =
            ta @ [Http (get_request ow rp (job_path j) b (job_token j)),
                  Http (put_request ow rp (job_path j) (job_branch j) (job_token j)
                          (ensureEndsWithNewline c @ job_entry j) s (job_commitMsg j))]"
      by (rule attempt_fetch_present [OF e1 e2 e3])
  }
  {
    assume "fetch rt (requests_of tw)
              (put_request ow rp (job_path j) (job_branch j) (job_token j) cw sw (job_commitMsg j))
            = Responded \<lparr> status = 409, body_text = Inr t \<rparr>"
    then show "fst (putGitHubFile rt tw (job_owner j) (job_repo j) (job_path j) (job_branch j) (job_token j)
                 cw sw (job_commitMsg j))
            = Inl (Error (js ''GitHub PUT failed ('' @ digits 409 @ js ''): '' @ t))"
      by (intro putGitHubFile_refused [OF e1 e2]) auto
  }
  show "js_includes
              (message_or_error (Some (Error (js ''GitHub PUT failed ('' @ digits 409 @ js ''): '' @ t))))
              (js ''409'')"
    by (rule status_409_message)
next
  assume u: "encodeURIComponent rt (job_owner j) = Inl eu \<or> encodeURIComponent rt (job_repo j) = Inl eu
        \<or> encodeURIComponent rt (job_branch j) = Inl eu"
  from attempt_unencoded [OF this, of ta]
  show "snd (attempt rt j ta) = ta" and "\<exists>e'. fst (attempt rt j ta) = Inl e'"
    by simp_all
  from u show "\<exists>as. 1 \<le> length as \<and> length as \<le> 3 \<and> list_all (\<lambda>a. a = []) as
              \<and> snd (retry_loop rt j 1 None tr) = tr @ with_backoff 1 as"
    by (rule retry_loop_unencoded)
next
  assume a: "attempt rt j tr = (Inl e1, tr1) \<and> js_includes (message_or_error (Some e1)) (js ''409'')
       \<and> attempt rt j (tr1 @ [Sleep 150]) = (Inl e2, tr2)
       \<and> js_includes (message_or_error (Some e2)) (js ''409'')
       \<and> attempt rt j (tr2 @ [Sleep 300]) = (Inl e3, tr3)"
  then show l: "retry_loop rt j 1 None tr = (Fell_through (Some e3), tr3)"
    by (intro three_conflicts) auto
  show "js_includes (message_or_error (Some e3)) (err_message e3)"
    by (rule message_or_error_includes)
  assume "requireEnv env (js ''GITHUB_TOKEN'') = Inr tok \<and> j = append_job_of rt env ms tok
                \<and> tr = tr0 @ store_reads"
  with l append_notes_failed [of env tok rt ms tr0 "Some e3" tr3]
  show "append_notes rt env ms tr0 =
                    (Inr \<lparr> status_code = 200,
                           jsonBody = JObj [(js ''ok'', JBool False),
                                            (js ''error'', JStr (js ''append_failed'')),
                                            (js ''detail'', JStr (message_or_error (Some e3))),
                                            (js ''path'', JStr (job_path j))] \<rparr>,
                     tr3 @ [Log [js ''Failed to append note:'', message_or_error (Some e3)]])"
    by (simp add: failure_reply_def)
qed


theorem bounded_retry_witness:
  "encodeURIComponent conflict_rt (job_owner conflict_job) = Inr (js ''KijimaMotofumi'')
   \<and> encodeURIComponent conflict_rt (job_repo conflict_job) = Inr (js ''note'')
   \<and> encodeURIComponent conflict_rt (job_branch conflict_job) = Inr (js ''main'')
   \<and> conflict_get = get_request (js ''KijimaMotofumi'') (js ''note'') (js ''daily/2026-01-02.md'')
        (js ''main'') (js ''t'')
   \<and> req_method conflict_get = js ''GET''
   \<and> req_url conflict_get =
        js ''https://api.github.com/repos/KijimaMotofumi/note/contents/daily/2026-01-02.md?ref=main''
   \<and> req_method conflict_put = js ''PUT''
   \<and> req_url conflict_put =
        js ''https://api.github.com/repos/KijimaMotofumi/note/contents/daily/2026-01-02.md''
   \<and> req_body conflict_put =
        Some \<lparr> message = js ''note: append from LINE (2026-01-02)'',
               content = js ''YQotIDE0OjAzIGhpCg=='',
               branch = js ''main'',
               sha = Some (JStr (js ''abc'')) \<rparr>
   \<and> (\<exists>as. 1 \<le> length as \<and> length as \<le> 3 \<and> list_all (is_attempt_trace conflict_get) as
        \<and> snd (retry_loop conflict_rt conflict_job 1 None store_reads) = store_reads @ with_backoff 1 as)
   \<and> fst (fetch_of conflict_rt conflict_job store_reads)
        = Inr (Present (Some (JStr (js ''abc''))) (js ''a''))
   \<and> snd (attempt conflict_rt conflict_job store_reads)
        = store_reads @ [Http conflict_get, Http conflict_put]
   \<and> fetch conflict_rt (requests_of (store_reads @ [Http conflict_get])) conflict_put
        = Responded \<lparr> status = 409, body_text = Inr (js ''{}'') \<rparr>
   \<and> fst (attempt conflict_rt conflict_job store_reads) = Inl conflict_error
   \<and> conflict_error = Error (js ''GitHub PUT failed ('' @ digits 409 @ js ''): '' @ js ''{}'')
   \<and> js_includes (message_or_error (Some conflict_error)) (js ''409'')
   \<and> retry_loop conflict_rt conflict_job 1 None store_reads =
        (Fell_through (Some conflict_error),
         store_reads @ [Http conflict_get, Http conflict_put, Sleep 150,
                        Http conflict_get, Http conflict_put, Sleep 300,
                        Http conflict_get, Http conflict_put])
   \<and> js_includes (message_or_error (Some conflict_error)) (err_message conflict_error)
   \<and> requireEnv both_env (js ''GITHUB_TOKEN'') = Inr (js ''t'')
   \<and> fst (append_notes conflict_rt both_env [\<lparr> text_msg = js ''hi'', userId = None \<rparr>] []) =
        Inr \<lparr> status_code = 200,
              jsonBody = JObj [(js ''ok'', JBool False),
                               (js ''error'', JStr (js ''append_failed'')),
                               (js ''detail'', JStr (js ''GitHub PUT failed (409): {}'')),
                               (js ''path'', JStr (js ''daily/2026-01-02.md''))] \<rparr>
   \<and> fst (fetch_of error500_rt conflict_job store_reads) = Inl error500
   \<and> attempt error500_rt conflict_job store_reads = (Inl error500, store_reads @ [Http conflict_get])
   \<and> fst (fetch_of (store_rt 404 [] 201) conflict_job store_reads) = Inr Absent
   \<and> snd (attempt (store_rt 404 [] 201) conflict_job store_reads) =
        store_reads @ [Http conflict_get,
          Http (put_request (js ''KijimaMotofumi'') (js ''note'') (js ''daily/2026-01-02.md'')
                  (js ''main'') (js ''t'')
                  (js ''# '' @ js ''2026-01-02'' @ [LF, LF] @ js ''- 14:03 hi'' @ [LF]) None
                  (js ''note: append from LINE (2026-01-02)''))]
   \<and> encodeURIComponent lone_surrogate_rt (job_owner lone_surrogate_job)
        = Inl (JsError (js ''URIError'') (js ''URI malformed''))
   \<and> snd (attempt lone_surrogate_rt lone_surrogate_job store_reads) = store_reads
   \<and> fst (attempt lone_surrogate_rt lone_surrogate_job store_reads)
        = Inl (JsError (js ''URIError'') (js ''URI malformed''))
   \<and> (\<exists>as. 1 \<le> length as \<and> length as \<le> 3 \<and> list_all (\<lambda>a. a = []) as
         \<and> snd (retry_loop lone_surrogate_rt lone_surrogate_job 1 None store_reads)
             = store_reads @ with_backoff 1 as)
   \<and> retry_loop lone_surrogate_rt lone_surrogate_job 1 None store_reads
        = (Fell_through (Some (JsError (js ''URIError'') (js ''URI malformed''))), store_reads)"
proof -
  let ?j = conflict_job
  let ?t1 = "store_reads @ [Http conflict_get, Http conflict_put]"
  let ?t2 = "(?t1 @ [Sleep 150]) @ [Http conflict_get, Http conflict_put]"
  let ?t3 = "(?t2 @ [Sleep 300]) @ [Http conflict_get, Http conflict_put]"
  have jr: "conflict_job =
      \<lparr> job_owner = js ''KijimaMotofumi'', job_repo = js ''note'', job_branch = js ''main'',
        job_token = js ''t'', job_path = js ''daily/2026-01-02.md'', job_date = js ''2026-01-02'',
        job_entry = js ''- 14:03 hi'' @ [LF],
        job_commitMsg = js ''note: append from LINE (2026-01-02)'', job_count = 1 \<rparr>"
    by code_simp
  have j: "job_owner ?j = js ''KijimaMotofumi''" "job_repo ?j = js ''note''"
    "job_branch ?j = js ''main''" "job_path ?j = js ''daily/2026-01-02.md''"
    "job_token ?j = js ''t''" "job_commitMsg ?j = js ''note: append from LINE (2026-01-02)''"
    "job_date ?j = js ''2026-01-02''" "job_entry ?j = js ''- 14:03 hi'' @ [LF]"
    unfolding jr by simp_all
  have g: "conflict_get = get_request (js ''KijimaMotofumi'') (js ''note'') (js ''daily/2026-01-02.md'')
        (js ''main'') (js ''t'')"
    by (simp add: conflict_get_def j)
  have gm: "req_method conflict_get = js ''GET''"
    by (simp add: g get_request_def)
  have gu: "req_url conflict_get =
        js ''https://api.github.com/repos/KijimaMotofumi/note/contents/daily/2026-01-02.md?ref=main''"
    by (simp add: g get_request_def js_def)
  have pm: "req_method conflict_put = js ''PUT''"
    by (simp add: conflict_put_def put_request_def)
  have pu: "req_url conflict_put =
        js ''https://api.github.com/repos/KijimaMotofumi/note/contents/daily/2026-01-02.md''"
    by (simp add: conflict_put_def put_request_def j js_def)
  have b64: "to_base64 (utf8_encode (js ''a'' @ [LF] @ js ''- 14:03 hi'' @ [LF])) = js ''YQotIDE0OjAzIGhpCg==''"
    by code_simp
  have pb: "req_body conflict_put =
        Some \<lparr> message = js ''note: append from LINE (2026-01-02)'',
               content = js ''YQotIDE0OjAzIGhpCg=='',
               branch = js ''main'',
               sha = Some (JStr (js ''abc'')) \<rparr>"
    using b64 by (simp add: conflict_put_def put_request_def j)
  have at: "attempt conflict_rt ?j tr = (Inl conflict_error, tr @ [Http conflict_get, Http conflict_put])"
    for tr
    using conflict_attempt_trace [of ?j tr] by (simp add: conflict_get_def conflict_put_def get_request_def)
  have c: "js_includes (message_or_error (Some conflict_error)) (js ''409'')"
    by code_simp
  have ce: "conflict_error = Error (js ''GitHub PUT failed ('' @ digits 409 @ js ''): '' @ js ''{}'')"
    by (simp add: conflict_error_def digits_409 js_def)
  have d: "message_or_error (Some conflict_error) = js ''GitHub PUT failed (409): {}''"
    by code_simp
  have e: "requireEnv both_env (js ''GITHUB_TOKEN'') = Inr (js ''t'')"
    by code_simp
  have f: "fst (fetch_of conflict_rt ?j store_reads) = Inr (Present (Some (JStr (js ''abc''))) (js ''a''))"
    by (simp add: fetch_of_def conflict_fetch)
  have fp: "fetch conflict_rt (requests_of (store_reads @ [Http conflict_get])) conflict_put
        = Responded \<lparr> status = 409, body_text = Inr (js ''{}'') \<rparr>"
    by (simp add: conflict_rt_def store_rt_def store_fetch_def pm js_def)
  note th = bounded_retry [where rt = conflict_rt and j = ?j and tr = store_reads
      and ow = "job_owner ?j" and rp = "job_repo ?j" and b = "job_branch ?j"
      and ta = store_reads and s = "Some (JStr (js ''abc''))" and c = "js ''a''"
      and tw = "store_reads @ [Http conflict_get]" and cw = "js ''a'' @ [LF] @ job_entry ?j"
      and sw = "Some (JStr (js ''abc''))" and t = "js ''{}''"
      and ?e1.0 = conflict_error and ?tr1.0 = ?t1 and ?e2.0 = conflict_error and ?tr2.0 = ?t2
      and ?e3.0 = conflict_error and ?tr3.0 = ?t3 and env = both_env and tok = "js ''t''"
      and ms = "[\<lparr> text_msg = js ''hi'', userId = None \<rparr>]" and ?tr0.0 = "[]"]
  note en = th [THEN conjunct1, rule_format, OF conjI [OF demo_encodes(1) conjI [OF demo_encodes(1) demo_encodes(1)]]]
  from en [THEN conjunct1]
  have 1: "\<exists>as. 1 \<le> length as \<and> length as \<le> 3 \<and> list_all (is_attempt_trace conflict_get) as
        \<and> snd (retry_loop conflict_rt ?j 1 None store_reads) = store_reads @ with_backoff 1 as"
    by (simp add: conflict_get_def)
  from en [THEN conjunct2, THEN conjunct2, THEN conjunct2, THEN conjunct1] f
  have 2: "snd (attempt conflict_rt ?j store_reads) = store_reads @ [Http conflict_get, Http conflict_put]"
    by (simp add: fetch_of_def conflict_get_def conflict_put_def ensureEndsWithNewline_a)
  from en [THEN conjunct2, THEN conjunct2, THEN conjunct2, THEN conjunct2] fp
  have 3: "fst (putGitHubFile conflict_rt (store_reads @ [Http conflict_get]) (job_owner ?j) (job_repo ?j)
        (job_path ?j) (job_branch ?j) (job_token ?j) (js ''a'' @ [LF] @ job_entry ?j)
        (Some (JStr (js ''abc''))) (job_commitMsg ?j)) = Inl conflict_error"
    by (simp add: conflict_put_def ce)
  from th [THEN conjunct2, THEN conjunct2] at c e
  have 4: "retry_loop conflict_rt ?j 1 None store_reads = (Fell_through (Some conflict_error), ?t3)"
    and 5: "js_includes (message_or_error (Some conflict_error)) (err_message conflict_error)"
    and 6: "append_notes conflict_rt both_env [\<lparr> text_msg = js ''hi'', userId = None \<rparr>] [] =
        (Inr \<lparr> status_code = 200,
               jsonBody = JObj [(js ''ok'', JBool False),
                                (js ''error'', JStr (js ''append_failed'')),
                                (js ''detail'', JStr (message_or_error (Some conflict_error))),
                                (js ''path'', JStr (job_path ?j))] \<rparr>,
         ?t3 @ [Log [js ''Failed to append note:'', message_or_error (Some conflict_error)]])"
    by (simp_all add: conflict_job_def)
  from 6 have 7: "fst (append_notes conflict_rt both_env [\<lparr> text_msg = js ''hi'', userId = None \<rparr>] []) =
        Inr \<lparr> status_code = 200,
              jsonBody = JObj [(js ''ok'', JBool False),
                               (js ''error'', JStr (js ''append_failed'')),
                               (js ''detail'', JStr (js ''GitHub PUT failed (409): {}'')),
                               (js ''path'', JStr (js ''daily/2026-01-02.md''))] \<rparr>"
    by (simp add: d j)
  have f5: "fst (fetch_of error500_rt ?j store_reads) = Inl error500"
    by (simp add: fetch_of_def error500_fetch)
  note th5 = bounded_retry [where rt = error500_rt and j = ?j and ta = store_reads and e = error500
      and ow = "job_owner ?j" and rp = "job_repo ?j" and b = "job_branch ?j"]
  from th5 [THEN conjunct1, rule_format,
      OF conjI [OF demo_encodes(2) conjI [OF demo_encodes(2) demo_encodes(2)]],
      THEN conjunct2, THEN conjunct1] f5
  have 8: "attempt error500_rt ?j store_reads = (Inl error500, store_reads @ [Http conflict_get])"
    by (simp add: fetch_of_def conflict_get_def)
  have f4: "fst (fetch_of (store_rt 404 [] 201) ?j store_reads) = Inr Absent"
    by (simp add: fetch_of_def absent_fetch)
  note th4 = bounded_retry [where rt = "store_rt 404 [] 201" and j = ?j and ta = store_reads
      and ow = "job_owner ?j" and rp = "job_repo ?j" and b = "job_branch ?j"]
  from th4 [THEN conjunct1, rule_format,
      OF conjI [OF demo_encodes(3) conjI [OF demo_encodes(3) demo_encodes(3)]],
      THEN conjunct2, THEN conjunct2, THEN conjunct1] f4
  have 9: "snd (attempt (store_rt 404 [] 201) ?j store_reads) =
        store_reads @ [Http conflict_get,
          Http (put_request (js ''KijimaMotofumi'') (js ''note'') (js ''daily/2026-01-02.md'')
                  (js ''main'') (js ''t'')
                  (js ''# '' @ js ''2026-01-02'' @ [LF, LF] @ js ''- 14:03 hi'' @ [LF]) None
                  (js ''note: append from LINE (2026-01-02)''))]"
    by (simp add: fetch_of_def g j)
  have "job_owner lone_surrogate_job = [0xD800]"
    by (simp add: lone_surrogate_job_def append_job_of_def Let_def env_or_def lone_surrogate_env_def)
  then have u: "encodeURIComponent lone_surrogate_rt (job_owner lone_surrogate_job)
        = Inl (JsError (js ''URIError'') (js ''URI malformed''))"
    by (simp add: lone_surrogate_rt_def demo_encode_def is_high_surrogate_def)
  note thu = bounded_retry [where rt = lone_surrogate_rt and j = lone_surrogate_job and ta = store_reads
      and tr = store_reads and eu = "JsError (js ''URIError'') (js ''URI malformed'')"]
  from thu [THEN conjunct2, THEN conjunct1] u
  have 10: "snd (attempt lone_surrogate_rt lone_surrogate_job store_reads) = store_reads"
    and 14: "\<exists>as. 1 \<le> length as \<and> length as \<le> 3 \<and> list_all (\<lambda>a. a = []) as
         \<and> snd (retry_loop lone_surrogate_rt lone_surrogate_job 1 None store_reads)
             = store_reads @ with_backoff 1 as"
    by simp_all
  from u have 11: "fst (attempt lone_surrogate_rt lone_surrogate_job store_reads)
        = Inl (JsError (js ''URIError'') (js ''URI malformed''))"
    by (simp add: attempt_def getGitHubFile_def)
  from 4 have 12: "retry_loop conflict_rt conflict_job 1 None store_reads =
        (Fell_through (Some conflict_error),
         store_reads @ [Http conflict_get, Http conflict_put, Sleep 150,
                        Http conflict_get, Http conflict_put, Sleep 300,
                        Http conflict_get, Http conflict_put])"
    by simp
  from at [of store_reads] have 13: "fst (attempt conflict_rt conflict_job store_reads) = Inl conflict_error"
    by simp
  have nu: "\<not> js_includes (message_or_error (Some (JsError (js ''URIError'') (js ''URI malformed''))))
      (js ''409'')"
    by code_simp
  from 10 11 have "attempt lone_surrogate_rt lone_surrogate_job store_reads
      = (Inl (JsError (js ''URIError'') (js ''URI malformed'')), store_reads)"
    by (simp add: prod_eq_iff)
  from retry_loop_failed [OF this, where n = 1 and lastErr = None] nu
  have 15: "retry_loop lone_surrogate_rt lone_surrogate_job 1 None store_reads
        = (Fell_through (Some (JsError (js ''URIError'') (js ''URI malformed''))), store_reads)"
    by simp
  show ?thesis
    using demo_encodes(1) [of "job_owner ?j"] demo_encodes(1) [of "job_repo ?j"]
      demo_encodes(1) [of "job_branch ?j"] j(1-3) g gm gu pm pu pb 1 f 2 fp 13 ce c 12 5 e 7 f5 8 f4 9 u 10 11
      14 15
    by simp
qed


lemma error500_attempt:
  "attempt error500_rt j tr =
     (Inl error500,
      tr @ [Http (get_request (job_owner j) (job_repo j) (job_path j) (job_branch j) (job_token j))])"
  by (simp add: attempt_def getGitHubFile_def githubRequest_def error500_rt_def get_request_def
      store_rt_def store_fetch_def demo_rt_def res_ok_def Let_def error500_def js_def
      digits.simps split: prod.splits)

lemma unread_attempt:
  "attempt unread_rt j tr =
     (Inl (TypeError (js ''terminated'')),
      tr @ [Http (get_request (job_owner j) (job_repo j) (job_path j) (job_branch j) (job_token j)),
            Http (put_request (job_owner j) (job_repo j) (job_path j) (job_branch j) (job_token j)
                    (js ''a'' @ [LF] @ job_entry j) (Some (JStr (js ''abc''))) (job_commitMsg j))])"
proof -
  have "attempt unread_rt j tr =
     (Inl (TypeError (js ''terminated'')),
      tr @ [Http (get_request (job_owner j) (job_repo j) (job_path j) (job_branch j) (job_token j)),
            Http (put_request (job_owner j) (job_repo j) (job_path j) (job_branch j) (job_token j)
                    (ensureEndsWithNewline (js ''a'') @ job_entry j) (Some (JStr (js ''abc'')))
                    (job_commitMsg j))])"
    by (simp add: attempt_def getGitHubFile_def putGitHubFile_def githubRequest_def unread_rt_def
        unread_fetch_def demo_rt_def demo_parse_def demo_decode_def file_a_body_def
        file_a_def hello_body_def or_empty_def res_ok_def Let_def js_def
        get_request_def put_request_def split: prod.splits)
  then show ?thesis by (simp add: ensureEndsWithNewline_a)
qed


text \<open>
  C4. The loop takes an error for a conflict when its text contains \<^verbatim>\<open>409\<close>,
  and the text holds the body of the store's answer. A fetch that the store
  answers with status 500 and the body \<^verbatim>\<open>409\<close> is no conflict, and the loop
  waits and retries it twice. A write that the store answers with status 409 and
  whose body cannot be read fails with the error of the read, and the loop stops
  at once.
\<close>

theorem retry_without_conflict:
  "fetch error500_rt [] conflict_get = Responded \<lparr> status = 500, body_text = Inr (js ''409'') \<rparr>
   \<and> attempt error500_rt conflict_job store_reads = (Inl error500, store_reads @ [Http conflict_get])
   \<and> message_or_error (Some error500) = js ''GitHub GET failed (500): 409''
   \<and> retry_loop error500_rt conflict_job 1 None store_reads =
       (Fell_through (Some error500),
        store_reads @ [Http conflict_get, Sleep 150, Http conflict_get, Sleep 300, Http conflict_get])
   \<and> fetch unread_rt [conflict_get] conflict_put
       = Responded \<lparr> status = 409, body_text = Inl (TypeError (js ''terminated'')) \<rparr>
   \<and> retry_loop unread_rt conflict_job 1 None store_reads =
       (Fell_through (Some (TypeError (js ''terminated''))),
        store_reads @ [Http conflict_get, Http conflict_put])"
proof -
  have c: "js_includes (message_or_error (Some error500)) (js ''409'')"
    by code_simp
  have m: "message_or_error (Some error500) = js ''GitHub GET failed (500): 409''"
    by code_simp
  have n: "\<not> js_includes (message_or_error (Some (TypeError (js ''terminated'')))) (js ''409'')"
    by code_simp
  have f: "fetch error500_rt [] conflict_get = Responded \<lparr> status = 500, body_text = Inr (js ''409'') \<rparr>"
    by (simp add: error500_rt_def store_rt_def store_fetch_def conflict_get_def get_request_def)
  have pm: "req_method conflict_put \<noteq> js ''GET''"
    by (simp add: conflict_put_def put_request_def js_def)
  have fu: "fetch unread_rt [conflict_get] conflict_put
       = Responded \<lparr> status = 409, body_text = Inl (TypeError (js ''terminated'')) \<rparr>"
    by (simp add: unread_rt_def unread_fetch_def pm)
  note a = error500_attempt [of conflict_job, folded conflict_get_def]
  have "retry_loop error500_rt conflict_job 1 None store_reads
      = retry_loop error500_rt conflict_job 2 (Some error500)
          ((store_reads @ [Http conflict_get]) @ [Sleep 150])"
    using retry_loop_failed [OF a, where n = 1 and lastErr = None and tr = store_reads] c
    by (simp add: numeral_2_eq_2)
  also have "\<dots> = retry_loop error500_rt conflict_job 3 (Some error500)
          ((((store_reads @ [Http conflict_get]) @ [Sleep 150]) @ [Http conflict_get]) @ [Sleep 300])"
    using retry_loop_failed [OF a, where n = 2 and lastErr = "Some error500"
        and tr = "(store_reads @ [Http conflict_get]) @ [Sleep 150]"] c
    by (simp add: numeral_3_eq_3)
  also have "\<dots> = (Fell_through (Some error500),
       ((((store_reads @ [Http conflict_get]) @ [Sleep 150]) @ [Http conflict_get]) @ [Sleep 300])
       @ [Http conflict_get])"
    using retry_loop_failed [OF a, where n = 3 and lastErr = "Some error500" and
        tr = "(((store_reads @ [Http conflict_get]) @ [Sleep 150]) @ [Http conflict_get]) @ [Sleep 300]"]
    by simp
  finally have l: "retry_loop error500_rt conflict_job 1 None store_reads =
       (Fell_through (Some error500),
        store_reads @ [Http conflict_get, Sleep 150, Http conflict_get, Sleep 300, Http conflict_get])"
    by simp
  have u: "attempt unread_rt conflict_job store_reads =
      (Inl (TypeError (js ''terminated'')), store_reads @ [Http conflict_get, Http conflict_put])"
    using unread_attempt [of conflict_job store_reads]
    by (simp add: conflict_get_def conflict_put_def)
  have lu: "retry_loop unread_rt conflict_job 1 None store_reads =
       (Fell_through (Some (TypeError (js ''terminated''))),
        store_reads @ [Http conflict_get, Http conflict_put])"
    using retry_loop_failed [OF u, where n = 1 and lastErr = None] n by simp
  from f a [of store_reads] m l fu lu show ?thesis by simp
qed

subsection \<open>The replies to a POST\<close>










end
